theory Spec2Isabelle
  imports Main "HOL-Library.Word"
begin

section \<open>Tensors, errors and the numeric backend\<close>

text \<open>
  The program is \<^verbatim>\<open>src/cnn/model.py\<close>: the class \<^verbatim>\<open>RoCNN\<close> (a fixed
  convolutional network built from \<^verbatim>\<open>torch.nn\<close> layers) and the two functions
  \<^verbatim>\<open>save_model\<close> and \<^verbatim>\<open>load_model\<close>.

  A tensor is its shape and its elements in row-major order. Every layer of the network
  is declared with \<^verbatim>\<open>dtype=torch.float32\<close>, so an element is the 32-bit pattern of a
  float: equality of tensors is bit-for-bit equality.
\<close>

record tensor =
  shape :: "nat list"
  dat :: "32 word list"

text \<open>
  The exceptions the program can raise. \<open>RuntimeError_state_dict\<close> is the error of
  \<^verbatim>\<open>load_state_dict\<close> (missing keys, unexpected keys, keys whose tensor has another
  shape); \<open>RuntimeError_shape\<close> is the error of a layer applied to a tensor it does not
  accept; \<open>OpenError\<close> is the error of \<^verbatim>\<open>torch.save\<close> when the file cannot be opened for
  writing (an \<^verbatim>\<open>OSError\<close>, a \<^verbatim>\<open>ValueError\<close> or a \<^verbatim>\<open>RuntimeError\<close>, by the cause
  and the version of torch); \<open>OSError\<close> is the error of the operating system for a name it
  refuses.
\<close>

datatype error =
    ValueError
  | FileNotFoundError
  | FileExistsError
  | NotADirectoryError
  | IsADirectoryError
  | EOFError
  | UnpicklingError
  | IndexError
  | OpenError
  | OSError
  | RuntimeError_state_dict "string list" "string list" "string list"
  | RuntimeError_shape

text \<open>
  The arithmetic of the layers is done by the numeric backend of torch, which is not part
  of the program. It is a parameter of the model: for each kind of layer, the function
  that gives the elements of the result. The shapes are computed here, by the rules of the
  torch documentation.
\<close>

record conv_cfg =
  in_channels :: nat
  out_channels :: nat
  padding :: nat
  kernel_size :: nat
  stride :: nat

record pool_cfg =
  pool_kernel_size :: nat
  pool_stride :: nat
  pool_padding :: nat

record linear_cfg =
  in_features :: nat
  out_features :: nat

record kernels =
  conv_k :: "conv_cfg \<Rightarrow> tensor \<Rightarrow> tensor \<Rightarrow> tensor \<Rightarrow> 32 word list"
  relu_k :: "32 word list \<Rightarrow> 32 word list"
  pool_k :: "pool_cfg \<Rightarrow> tensor \<Rightarrow> 32 word list"
  linear_k :: "linear_cfg \<Rightarrow> tensor \<Rightarrow> tensor \<Rightarrow> tensor \<Rightarrow> 32 word list"

section \<open>The layers\<close>

text \<open>
  Size of one spatial dimension after a convolution or a pooling window (dilation 1,
  rounding down): \<open>(n + 2 p - k) div s + 1\<close>. The caller checks \<open>k \<le> n + 2 p\<close> first,
  so the subtraction on \<open>nat\<close> does not truncate.
\<close>

definition window_out :: "nat \<Rightarrow> nat \<Rightarrow> nat \<Rightarrow> nat \<Rightarrow> nat" where
  "window_out n p k s = (n + 2 * p - k) div s + 1"

text \<open>
  \<^verbatim>\<open>torch.nn.Conv2d\<close>: the input is \<open>(N, C, H, W)\<close> or, unbatched, \<open>(C, H, W)\<close>; \<open>C\<close>
  must be \<open>in_channels\<close> and the padded input must hold the kernel.
\<close>

definition Conv2d :: "kernels \<Rightarrow> conv_cfg \<Rightarrow> tensor \<Rightarrow> tensor \<Rightarrow> tensor \<Rightarrow> error + tensor" where
  "Conv2d K c weight bias x =
     (let p = padding c; k = kernel_size c; s = stride c in
      case shape x of
        [n, ch, h, w] \<Rightarrow>
          if ch = in_channels c \<and> k \<le> h + 2 * p \<and> k \<le> w + 2 * p
          then Inr \<lparr>shape = [n, out_channels c, window_out h p k s, window_out w p k s],
                    dat = conv_k K c weight bias x\<rparr>
          else Inl RuntimeError_shape
      | [ch, h, w] \<Rightarrow>
          if ch = in_channels c \<and> k \<le> h + 2 * p \<and> k \<le> w + 2 * p
          then Inr \<lparr>shape = [out_channels c, window_out h p k s, window_out w p k s],
                    dat = conv_k K c weight bias x\<rparr>
          else Inl RuntimeError_shape
      | _ \<Rightarrow> Inl RuntimeError_shape)"

text \<open>\<^verbatim>\<open>torch.nn.ReLU\<close>: elementwise, the shape is kept.\<close>

definition ReLU :: "kernels \<Rightarrow> tensor \<Rightarrow> error + tensor" where
  "ReLU K x = Inr (x\<lparr>dat := relu_k K (dat x)\<rparr>)"

text \<open>\<^verbatim>\<open>torch.nn.MaxPool2d\<close>: the channels are kept, each spatial dimension is windowed.\<close>

definition MaxPool2d :: "kernels \<Rightarrow> pool_cfg \<Rightarrow> tensor \<Rightarrow> error + tensor" where
  "MaxPool2d K c x =
     (let p = pool_padding c; k = pool_kernel_size c; s = pool_stride c in
      case shape x of
        [n, ch, h, w] \<Rightarrow>
          if k \<le> h + 2 * p \<and> k \<le> w + 2 * p
          then Inr \<lparr>shape = [n, ch, window_out h p k s, window_out w p k s],
                    dat = pool_k K c x\<rparr>
          else Inl RuntimeError_shape
      | [ch, h, w] \<Rightarrow>
          if k \<le> h + 2 * p \<and> k \<le> w + 2 * p
          then Inr \<lparr>shape = [ch, window_out h p k s, window_out w p k s],
                    dat = pool_k K c x\<rparr>
          else Inl RuntimeError_shape
      | _ \<Rightarrow> Inl RuntimeError_shape)"

text \<open>
  \<^verbatim>\<open>torch.nn.Flatten()\<close> (\<open>start_dim = 1\<close>, \<open>end_dim = -1\<close>): every dimension after the
  first is merged into one; the elements are the same, in the same order. A tensor with
  fewer than two dimensions has no dimension 1 and the call raises.
\<close>

definition Flatten :: "tensor \<Rightarrow> error + tensor" where
  "Flatten x =
     (case shape x of
        [] \<Rightarrow> Inl IndexError
      | [n] \<Rightarrow> Inl IndexError
      | n # rest \<Rightarrow> Inr (x\<lparr>shape := [n, prod_list rest]\<rparr>))"

text \<open>\<^verbatim>\<open>torch.nn.Linear\<close>: the last dimension must be \<open>in_features\<close>.\<close>

definition Linear :: "kernels \<Rightarrow> linear_cfg \<Rightarrow> tensor \<Rightarrow> tensor \<Rightarrow> tensor \<Rightarrow> error + tensor" where
  "Linear K c weight bias x =
     (if shape x \<noteq> [] \<and> last (shape x) = in_features c
      then Inr \<lparr>shape = butlast (shape x) @ [out_features c],
                dat = linear_k K c weight bias x\<rparr>
      else Inl RuntimeError_shape)"

text \<open>Sequencing of calls that may raise: the first error ends the computation.\<close>

definition and_then :: "error + 'a \<Rightarrow> ('a \<Rightarrow> error + 'b) \<Rightarrow> error + 'b" where
  "and_then r f = (case r of Inl e \<Rightarrow> Inl e | Inr v \<Rightarrow> f v)"

section \<open>The class RoCNN\<close>

text \<open>
  The hyperparameters of \<^verbatim>\<open>RoCNN.__init__\<close>, layer by layer, as the source writes them.
\<close>

definition cv1_cfg :: conv_cfg where
  "cv1_cfg = \<lparr>in_channels = 6, out_channels = 32, padding = 0, kernel_size = 4, stride = 2\<rparr>"

definition cv2_cfg :: conv_cfg where
  "cv2_cfg = \<lparr>in_channels = 32, out_channels = 64, padding = 1, kernel_size = 3, stride = 1\<rparr>"

definition cv3_cfg :: conv_cfg where
  "cv3_cfg = \<lparr>in_channels = 64, out_channels = 64, padding = 1, kernel_size = 3, stride = 1\<rparr>"

definition mp1_cfg :: pool_cfg where
  "mp1_cfg = \<lparr>pool_kernel_size = 3, pool_stride = 2, pool_padding = 0\<rparr>"

definition mp2_cfg :: pool_cfg where
  "mp2_cfg = \<lparr>pool_kernel_size = 3, pool_stride = 2, pool_padding = 0\<rparr>"

definition fc1_cfg :: linear_cfg where
  "fc1_cfg = \<lparr>in_features = 7 * 7 * 64, out_features = 512\<rparr>"

definition fc2_cfg :: linear_cfg where
  "fc2_cfg = \<lparr>in_features = 512, out_features = 64\<rparr>"

definition fc3_cfg :: linear_cfg where
  "fc3_cfg = \<lparr>in_features = 64, out_features = 1\<rparr>"

text \<open>
  An instance holds the parameters of its layers: a weight and a bias for each of the three
  convolutions and the three linear layers (all are declared with \<^verbatim>\<open>bias=True\<close>). No
  layer has a buffer. The type of a parameter is left open: it is \<open>tensor\<close> where the
  parameters are values, and a reference into a store of buffers where the in-place
  operations of the forward pass are followed.
\<close>

record 't RoCNN =
  cv1_weight :: 't
  cv1_bias :: 't
  cv2_weight :: 't
  cv2_bias :: 't
  cv3_weight :: 't
  cv3_bias :: 't
  fc1_weight :: 't
  fc1_bias :: 't
  fc2_weight :: 't
  fc2_bias :: 't
  fc3_weight :: 't
  fc3_bias :: 't

text \<open>
  The shapes of the parameters: \<open>(out_channels, in_channels, k, k)\<close> and \<open>(out_channels)\<close>
  for a convolution, \<open>(out_features, in_features)\<close> and \<open>(out_features)\<close> for a linear
  layer.
\<close>

definition conv_weight_shape :: "conv_cfg \<Rightarrow> nat list" where
  "conv_weight_shape c = [out_channels c, in_channels c, kernel_size c, kernel_size c]"

definition conv_bias_shape :: "conv_cfg \<Rightarrow> nat list" where
  "conv_bias_shape c = [out_channels c]"

definition linear_weight_shape :: "linear_cfg \<Rightarrow> nat list" where
  "linear_weight_shape c = [out_features c, in_features c]"

definition linear_bias_shape :: "linear_cfg \<Rightarrow> nat list" where
  "linear_bias_shape c = [out_features c]"

text \<open>
  The names of the parameters in \<^verbatim>\<open>state_dict()\<close>, in the order in which
  \<^verbatim>\<open>__init__\<close> registers the layers. \<^verbatim>\<open>cv1\<close>, \<^verbatim>\<open>cv2\<close>, \<^verbatim>\<open>cv3\<close>, \<^verbatim>\<open>fc1\<close> and
  \<^verbatim>\<open>fc2\<close> are \<^verbatim>\<open>Sequential\<close> containers whose layer with parameters is child \<open>0\<close>;
  \<^verbatim>\<open>fc3\<close> is the linear layer itself.
\<close>

definition declared :: "(string \<times> nat list) list" where
  "declared =
     [(''cv1.0.weight'', conv_weight_shape cv1_cfg), (''cv1.0.bias'', conv_bias_shape cv1_cfg),
      (''cv2.0.weight'', conv_weight_shape cv2_cfg), (''cv2.0.bias'', conv_bias_shape cv2_cfg),
      (''cv3.0.weight'', conv_weight_shape cv3_cfg), (''cv3.0.bias'', conv_bias_shape cv3_cfg),
      (''fc1.0.weight'', linear_weight_shape fc1_cfg), (''fc1.0.bias'', linear_bias_shape fc1_cfg),
      (''fc2.0.weight'', linear_weight_shape fc2_cfg), (''fc2.0.bias'', linear_bias_shape fc2_cfg),
      (''fc3.weight'', linear_weight_shape fc3_cfg), (''fc3.bias'', linear_bias_shape fc3_cfg)]"

text \<open>
  \<^verbatim>\<open>RoCNN()\<close>: every parameter gets its declared shape and values drawn by the
  initialiser. The drawn values are the argument \<open>init\<close>: element \<open>i\<close> of the parameter
  called \<open>name\<close> is \<open>init name i\<close>.
\<close>

definition fresh_param :: "(string \<Rightarrow> nat \<Rightarrow> 32 word) \<Rightarrow> string \<Rightarrow> nat list \<Rightarrow> tensor" where
  "fresh_param init name shp = \<lparr>shape = shp, dat = map (init name) [0..<prod_list shp]\<rparr>"

definition RoCNN_init :: "(string \<Rightarrow> nat \<Rightarrow> 32 word) \<Rightarrow> tensor RoCNN" where
  "RoCNN_init init =
     \<lparr>cv1_weight = fresh_param init ''cv1.0.weight'' (conv_weight_shape cv1_cfg),
      cv1_bias = fresh_param init ''cv1.0.bias'' (conv_bias_shape cv1_cfg),
      cv2_weight = fresh_param init ''cv2.0.weight'' (conv_weight_shape cv2_cfg),
      cv2_bias = fresh_param init ''cv2.0.bias'' (conv_bias_shape cv2_cfg),
      cv3_weight = fresh_param init ''cv3.0.weight'' (conv_weight_shape cv3_cfg),
      cv3_bias = fresh_param init ''cv3.0.bias'' (conv_bias_shape cv3_cfg),
      fc1_weight = fresh_param init ''fc1.0.weight'' (linear_weight_shape fc1_cfg),
      fc1_bias = fresh_param init ''fc1.0.bias'' (linear_bias_shape fc1_cfg),
      fc2_weight = fresh_param init ''fc2.0.weight'' (linear_weight_shape fc2_cfg),
      fc2_bias = fresh_param init ''fc2.0.bias'' (linear_bias_shape fc2_cfg),
      fc3_weight = fresh_param init ''fc3.weight'' (linear_weight_shape fc3_cfg),
      fc3_bias = fresh_param init ''fc3.bias'' (linear_bias_shape fc3_cfg)\<rparr>"

text \<open>
  The layers as \<^verbatim>\<open>__init__\<close> builds them: \<^verbatim>\<open>cv1\<close>, \<^verbatim>\<open>cv2\<close>, \<^verbatim>\<open>cv3\<close>, \<^verbatim>\<open>fc1\<close> and
  \<^verbatim>\<open>fc2\<close> are a layer followed by a ReLU; \<^verbatim>\<open>fc3\<close> has no ReLU.
\<close>

definition cv1 :: "kernels \<Rightarrow> tensor RoCNN \<Rightarrow> tensor \<Rightarrow> error + tensor" where
  "cv1 K m x = and_then (Conv2d K cv1_cfg (cv1_weight m) (cv1_bias m) x) (ReLU K)"

definition cv2 :: "kernels \<Rightarrow> tensor RoCNN \<Rightarrow> tensor \<Rightarrow> error + tensor" where
  "cv2 K m x = and_then (Conv2d K cv2_cfg (cv2_weight m) (cv2_bias m) x) (ReLU K)"

definition cv3 :: "kernels \<Rightarrow> tensor RoCNN \<Rightarrow> tensor \<Rightarrow> error + tensor" where
  "cv3 K m x = and_then (Conv2d K cv3_cfg (cv3_weight m) (cv3_bias m) x) (ReLU K)"

definition mp1 :: "kernels \<Rightarrow> tensor \<Rightarrow> error + tensor" where
  "mp1 K x = MaxPool2d K mp1_cfg x"

definition mp2 :: "kernels \<Rightarrow> tensor \<Rightarrow> error + tensor" where
  "mp2 K x = MaxPool2d K mp2_cfg x"

definition fc1 :: "kernels \<Rightarrow> tensor RoCNN \<Rightarrow> tensor \<Rightarrow> error + tensor" where
  "fc1 K m x = and_then (Linear K fc1_cfg (fc1_weight m) (fc1_bias m) x) (ReLU K)"

definition fc2 :: "kernels \<Rightarrow> tensor RoCNN \<Rightarrow> tensor \<Rightarrow> error + tensor" where
  "fc2 K m x = and_then (Linear K fc2_cfg (fc2_weight m) (fc2_bias m) x) (ReLU K)"

definition fc3 :: "kernels \<Rightarrow> tensor RoCNN \<Rightarrow> tensor \<Rightarrow> error + tensor" where
  "fc3 K m x = Linear K fc3_cfg (fc3_weight m) (fc3_bias m) x"

text \<open>
  \<^verbatim>\<open>RoCNN.forward\<close> applies nine stages in this order. \<open>stage_outputs\<close> is the list of
  the values \<^verbatim>\<open>x\<close> takes, one after each stage, up to the first stage that raises;
  \<open>forward\<close> is the value returned.
\<close>

definition stages :: "kernels \<Rightarrow> tensor RoCNN \<Rightarrow> (tensor \<Rightarrow> error + tensor) list" where
  "stages K m = [cv1 K m, mp1 K, cv2 K m, cv3 K m, mp2 K, Flatten, fc1 K m, fc2 K m, fc3 K m]"

fun stage_outputs :: "(tensor \<Rightarrow> error + tensor) list \<Rightarrow> tensor \<Rightarrow> tensor list" where
  "stage_outputs [] x = []"
| "stage_outputs (f # fs) x =
     (case f x of Inl e \<Rightarrow> [] | Inr y \<Rightarrow> y # stage_outputs fs y)"

fun run_stages :: "('a \<Rightarrow> error + 'a) list \<Rightarrow> 'a \<Rightarrow> error + 'a" where
  "run_stages [] x = Inr x"
| "run_stages (f # fs) x = and_then (f x) (run_stages fs)"

definition forward :: "kernels \<Rightarrow> tensor RoCNN \<Rightarrow> tensor \<Rightarrow> error + tensor" where
  "forward K m x = run_stages (stages K m) x"


section \<open>The file system and the console\<close>

text \<open>
  \<^verbatim>\<open>save_model\<close> and \<^verbatim>\<open>load_model\<close> act on the file system and on the console. The
  state they act on is a record: what exists at each path (a directory, or a file with its
  contents), the lines still to be read from standard input, and the calls made so far to
  the operating system, to torch's file functions and to the console, in order. A path is
  the string the program passes; two paths are the same entry when they are the same
  string. The contents of a file are of a type \<open>'b\<close> left open (its bytes).

  What differs from one operating system to another is part of the state: the characters
  that separate the components of a path (the slash on POSIX, the slash and the backslash
  on Windows), and the names the system refuses to create (on Windows those with one of
  \<^verbatim>\<open><>:"|?*\<close> or a reserved device name).
\<close>

datatype 'b node = Dir | File 'b

datatype event =
    Ev_exists string
  | Ev_makedirs string
  | Ev_save string
  | Ev_load string
  | Ev_print string
  | Ev_input string

record 'b world =
  nodes :: "string \<Rightarrow> 'b node option"
  stdin :: "string list"
  events :: "event list"
  separators :: "char list"
  refuses :: "string \<Rightarrow> bool"

text \<open>What is at a path. Nothing is at the empty path.\<close>

definition entry :: "'b world \<Rightarrow> string \<Rightarrow> 'b node option" where
  "entry w p = (if p = [] then None else nodes w p)"

definition log_event :: "'b world \<Rightarrow> event \<Rightarrow> 'b world" where
  "log_event w e = w\<lparr>events := events w @ [e]\<rparr>"

text \<open>
  The separator the program splits paths at is the backslash, written \<^verbatim>\<open>"\\"\<close> in the
  source.
\<close>

definition backslash :: char where
  "backslash = CHR 0x5C"

text \<open>
  The slash, and the character NUL: Python raises \<^verbatim>\<open>ValueError\<close> when a path with a NUL
  in it is passed to the operating system.
\<close>

definition slash :: char where
  "slash = CHR 0x2F"

definition nul :: char where
  "nul = CHR 0x00"

definition is_sep :: "'b world \<Rightarrow> char \<Rightarrow> bool" where
  "is_sep w c = (c \<in> set (separators w))"

text \<open>
  \<^verbatim>\<open>str.rindex\<close> for a one-character argument: the highest index at which the character
  occurs, \<^verbatim>\<open>ValueError\<close> when it does not occur.
\<close>

fun rfind :: "char \<Rightarrow> string \<Rightarrow> nat option" where
  "rfind c [] = None"
| "rfind c (x # xs) =
     (case rfind c xs of
        Some i \<Rightarrow> Some (Suc i)
      | None \<Rightarrow> if x = c then Some 0 else None)"

definition rindex :: "string \<Rightarrow> char \<Rightarrow> error + nat" where
  "rindex s c = (case rfind c s of None \<Rightarrow> Inl ValueError | Some i \<Rightarrow> Inr i)"

text \<open>\<^verbatim>\<open>os.path.exists\<close>.\<close>

definition os_path_exists :: "'b world \<Rightarrow> string \<Rightarrow> bool \<times> 'b world" where
  "os_path_exists w p = (entry w p \<noteq> None, log_event w (Ev_exists p))"

text \<open>
  The directories above a path: its non-empty prefixes that end just before a separator
  and not with one, shortest first. The parent of a path is the text before its last
  separator, without the separators it ends with; a path without a separator, and a path
  whose only separators are at its start, have a parent that always exists (the current
  directory, the root).
\<close>

fun prefixes_before :: "(char \<Rightarrow> bool) \<Rightarrow> string \<Rightarrow> string \<Rightarrow> string list" where
  "prefixes_before P acc [] = []"
| "prefixes_before P acc (c # cs) =
     (if P c \<and> acc \<noteq> [] \<and> \<not> P (last acc) then [acc] else []) @
     prefixes_before P (acc @ [c]) cs"

definition ancestors :: "'b world \<Rightarrow> string \<Rightarrow> string list" where
  "ancestors w p = prefixes_before (is_sep w) [] p"

fun last_where :: "(char \<Rightarrow> bool) \<Rightarrow> string \<Rightarrow> nat option" where
  "last_where P [] = None"
| "last_where P (x # xs) =
     (case last_where P xs of
        Some i \<Rightarrow> Some (Suc i)
      | None \<Rightarrow> if P x then Some 0 else None)"

definition parent_ok :: "'b world \<Rightarrow> string \<Rightarrow> bool" where
  "parent_ok w p =
     (case last_where (is_sep w) p of
        None \<Rightarrow> True
      | Some j \<Rightarrow>
          let parent = rev (dropWhile (is_sep w) (rev (take j p)))
          in parent = [] \<or> entry w parent = Some Dir)"

text \<open>
  \<^verbatim>\<open>os.mkdir\<close>: creates one directory. It raises for a NUL in the path, for a name the
  system refuses, when something is already there, and when the parent is not a directory.
\<close>

definition os_mkdir :: "'b world \<Rightarrow> string \<Rightarrow> (error + unit) \<times> 'b world" where
  "os_mkdir w p =
     (if nul \<in> set p then (Inl ValueError, w)
      else if p = [] then (Inl FileNotFoundError, w)
      else if refuses w p then (Inl OSError, w)
      else if entry w p \<noteq> None then (Inl FileExistsError, w)
      else if \<not> parent_ok w p then (Inl FileNotFoundError, w)
      else (Inr (), w\<lparr>nodes := (nodes w)(p \<mapsto> Dir)\<rparr>))"

text \<open>
  \<^verbatim>\<open>os.makedirs\<close> (with \<^verbatim>\<open>exist_ok=False\<close>): creates, from the top, every directory
  above the path that is missing, then the directory itself. It raises as soon as one of
  them cannot be created or a regular file is in the way; the directories created before
  that remain.
\<close>

fun make_missing :: "'b world \<Rightarrow> string list \<Rightarrow> (error + unit) \<times> 'b world" where
  "make_missing w [] = (Inr (), w)"
| "make_missing w (a # as) =
     (case entry w a of
        None \<Rightarrow>
          (case os_mkdir w a of
             (Inl e, w') \<Rightarrow> (Inl e, w')
           | (Inr u, w') \<Rightarrow> make_missing w' as)
      | Some Dir \<Rightarrow> make_missing w as
      | Some (File b) \<Rightarrow> (Inl NotADirectoryError, w))"

definition os_makedirs :: "'b world \<Rightarrow> string \<Rightarrow> (error + unit) \<times> 'b world" where
  "os_makedirs w p =
     (case make_missing w (ancestors w p) of
        (Inl e, w') \<Rightarrow> (Inl e, w')
      | (Inr u, w') \<Rightarrow>
          (case os_mkdir w' p of
             (Inl e, w'') \<Rightarrow> (Inl e, w'')
           | (Inr u, w'') \<Rightarrow> (Inr (), log_event w'' (Ev_makedirs p))))"

text \<open>\<^verbatim>\<open>print\<close> and \<^verbatim>\<open>input\<close>. At the end of standard input, \<^verbatim>\<open>input\<close> raises.\<close>

definition py_print :: "'b world \<Rightarrow> string \<Rightarrow> 'b world" where
  "py_print w s = log_event w (Ev_print s)"

definition py_input :: "'b world \<Rightarrow> string \<Rightarrow> (error + string) \<times> 'b world" where
  "py_input w prompt =
     (case stdin w of
        [] \<Rightarrow> (Inl EOFError, log_event w (Ev_input prompt))
      | l # ls \<Rightarrow> (Inr l, log_event (w\<lparr>stdin := ls\<rparr>) (Ev_input prompt)))"

text \<open>The directories \<^verbatim>\<open>os.makedirs\<close> was called for and created, in order.\<close>

definition makedirs_calls :: "'b world \<Rightarrow> string list" where
  "makedirs_calls w = concat (map (\<lambda>e. case e of Ev_makedirs p \<Rightarrow> [p] | _ \<Rightarrow> []) (events w))"

section \<open>State dictionaries and torch's file functions\<close>

text \<open>
  \<^verbatim>\<open>model.state_dict(keep_vars=True)\<close>: the parameters by name, in declaration order.
\<close>

type_synonym state_dict = "(string \<times> tensor) list"

definition state_dict :: "tensor RoCNN \<Rightarrow> state_dict" where
  "state_dict m =
     [(''cv1.0.weight'', cv1_weight m), (''cv1.0.bias'', cv1_bias m),
      (''cv2.0.weight'', cv2_weight m), (''cv2.0.bias'', cv2_bias m),
      (''cv3.0.weight'', cv3_weight m), (''cv3.0.bias'', cv3_bias m),
      (''fc1.0.weight'', fc1_weight m), (''fc1.0.bias'', fc1_bias m),
      (''fc2.0.weight'', fc2_weight m), (''fc2.0.bias'', fc2_bias m),
      (''fc3.weight'', fc3_weight m), (''fc3.bias'', fc3_bias m)]"

text \<open>
  \<^verbatim>\<open>model.load_state_dict(sd)\<close> (\<^verbatim>\<open>strict=True\<close>). Each parameter of the model whose name
  is in \<open>sd\<close> with the same shape receives the elements of that tensor (\<^verbatim>\<open>copy_\<close>). A name
  of the model absent from \<open>sd\<close> is a missing key, a name of \<open>sd\<close> that the model does not
  have is an unexpected key, a name with another shape is a size mismatch; if there is any
  of them the call raises.
\<close>

definition copy_param :: "state_dict \<Rightarrow> string \<Rightarrow> tensor \<Rightarrow> tensor" where
  "copy_param sd name param =
     (case map_of sd name of
        None \<Rightarrow> param
      | Some t \<Rightarrow> if shape t = shape param then param\<lparr>dat := dat t\<rparr> else param)"

definition load_state_dict :: "tensor RoCNN \<Rightarrow> state_dict \<Rightarrow> error + tensor RoCNN" where
  "load_state_dict m sd =
     (let own = state_dict m;
          missing = [k. (k, param) \<leftarrow> own, map_of sd k = None];
          unexpected = [k. (k, t) \<leftarrow> sd, map_of own k = None];
          mismatched = [k. (k, param) \<leftarrow> own,
                           case map_of sd k of None \<Rightarrow> False | Some t \<Rightarrow> shape t \<noteq> shape param]
      in if missing = [] \<and> unexpected = [] \<and> mismatched = []
         then Inr \<lparr>cv1_weight = copy_param sd ''cv1.0.weight'' (cv1_weight m),
                   cv1_bias = copy_param sd ''cv1.0.bias'' (cv1_bias m),
                   cv2_weight = copy_param sd ''cv2.0.weight'' (cv2_weight m),
                   cv2_bias = copy_param sd ''cv2.0.bias'' (cv2_bias m),
                   cv3_weight = copy_param sd ''cv3.0.weight'' (cv3_weight m),
                   cv3_bias = copy_param sd ''cv3.0.bias'' (cv3_bias m),
                   fc1_weight = copy_param sd ''fc1.0.weight'' (fc1_weight m),
                   fc1_bias = copy_param sd ''fc1.0.bias'' (fc1_bias m),
                   fc2_weight = copy_param sd ''fc2.0.weight'' (fc2_weight m),
                   fc2_bias = copy_param sd ''fc2.0.bias'' (fc2_bias m),
                   fc3_weight = copy_param sd ''fc3.weight'' (fc3_weight m),
                   fc3_bias = copy_param sd ''fc3.bias'' (fc3_bias m)\<rparr>
         else Inl (RuntimeError_state_dict missing unexpected mismatched))"

text \<open>
  An instance has the declared shapes when the names and the shapes of its state
  dictionary are the declared ones. Every instance \<^verbatim>\<open>RoCNN()\<close> builds has them, and
  \<^verbatim>\<open>load_state_dict\<close> keeps them.
\<close>

definition declared_shapes :: "tensor RoCNN \<Rightarrow> bool" where
  "declared_shapes m = (map (\<lambda>(k, t). (k, shape t)) (state_dict m) = declared)"

text \<open>
  \<^verbatim>\<open>torch.save(obj, path)\<close> opens the file for writing and writes the serialisation of
  \<open>obj\<close>; \<^verbatim>\<open>torch.load(path)\<close> opens it for reading and deserialises. The format is
  torch's; it is a parameter: \<open>ser\<close> gives the contents written for a state dictionary,
  \<open>de\<close> reads contents back or raises. A file that exists is opened for writing and
  truncated. A file that does not exist is created, which needs a path without a NUL, that
  the system does not refuse, that does not end with a separator, and whose parent is a
  directory.
\<close>

definition can_create :: "'b world \<Rightarrow> string \<Rightarrow> bool" where
  "can_create w p =
     (p \<noteq> [] \<and> nul \<notin> set p \<and> \<not> refuses w p \<and> \<not> is_sep w (last p) \<and> parent_ok w p)"

definition can_open_for_writing :: "'b world \<Rightarrow> string \<Rightarrow> bool" where
  "can_open_for_writing w p =
     (case entry w p of
        Some (File b) \<Rightarrow> True
      | Some Dir \<Rightarrow> False
      | None \<Rightarrow> can_create w p)"

definition torch_save ::
  "(state_dict \<Rightarrow> 'b) \<Rightarrow> 'b world \<Rightarrow> state_dict \<Rightarrow> string \<Rightarrow> (error + unit) \<times> 'b world" where
  "torch_save ser w obj p =
     (if can_open_for_writing w p
      then (Inr (), log_event (w\<lparr>nodes := (nodes w)(p \<mapsto> File (ser obj))\<rparr>) (Ev_save p))
      else (Inl OpenError, w))"

definition torch_load ::
  "('b \<Rightarrow> error + state_dict) \<Rightarrow> 'b world \<Rightarrow> string \<Rightarrow> (error + state_dict) \<times> 'b world" where
  "torch_load de w p =
     (case entry w p of
        None \<Rightarrow> (Inl FileNotFoundError, w)
      | Some Dir \<Rightarrow> (Inl IsADirectoryError, w)
      | Some (File b) \<Rightarrow> (de b, log_event w (Ev_load p)))"

section \<open>save_model and load_model\<close>

text \<open>
  \<^verbatim>\<open>save_model(model, path, overwrite=False)\<close>. The result is the exception raised, or
  \<open>()\<close> for a normal return, with the state reached.
\<close>

definition save_and_report ::
  "(state_dict \<Rightarrow> 'b) \<Rightarrow> 'b world \<Rightarrow> tensor RoCNN \<Rightarrow> string \<Rightarrow> (error + unit) \<times> 'b world" where
  "save_and_report ser w model path =
     (case torch_save ser w (state_dict model) path of
        (Inl e, w') \<Rightarrow> (Inl e, w')
      | (Inr u, w') \<Rightarrow> (Inr (), py_print w' (''model saved to \"'' @ path @ ''\".'')))"

definition save_model ::
  "(state_dict \<Rightarrow> 'b) \<Rightarrow> 'b world \<Rightarrow> tensor RoCNN \<Rightarrow> string \<Rightarrow> bool \<Rightarrow> (error + unit) \<times> 'b world" where
  "save_model ser w model path overwrite =
     (case rindex path backslash of
        Inl e \<Rightarrow> (Inl e, w)
      | Inr i \<Rightarrow>
          let folder_path = take i path;
              (folder_exists, w1) = os_path_exists w folder_path
          in if \<not> folder_exists then
               (case os_makedirs w1 folder_path of
                  (Inl e, w2) \<Rightarrow> (Inl e, w2)
                | (Inr u, w2) \<Rightarrow>
                    save_and_report ser
                      (py_print w2 (''created new folder at \"'' @ folder_path @ ''\"''))
                      model path)
             else
               let (path_exists, w2) = os_path_exists w1 path
               in if path_exists \<and> \<not> overwrite then (Inr (), w2)
                  else save_and_report ser w2 model path)"

text \<open>
  \<^verbatim>\<open>load_model(path)\<close>. \<open>init\<close> is what the initialiser of \<^verbatim>\<open>RoCNN()\<close> draws. The
  result is the exception raised or the model returned, with the state reached.
  \<open>ask_create\<close> is the first four lines of the function, which compute \<^verbatim>\<open>create\<close>;
  \<open>load_model\<close> is the whole function.
\<close>

definition prompt :: "string \<Rightarrow> string" where
  "prompt path = ''model not found at path \"'' @ path @ ''\", create new one? (y/n) ''"

definition ask_create :: "'b world \<Rightarrow> string \<Rightarrow> (error + bool) \<times> 'b world" where
  "ask_create w path =
     (let create = False;
          (path_exists, w1) = os_path_exists w path
      in if \<not> path_exists then
           (case py_input w1 (prompt path) of
              (Inl e, w2) \<Rightarrow> (Inl e, w2)
            | (Inr input_value, w2) \<Rightarrow>
                (Inr (if input_value \<in> set [''y'', ''Y''] then True else create), w2))
         else (Inr create, w1))"

definition load_model ::
  "('b \<Rightarrow> error + state_dict) \<Rightarrow> (string \<Rightarrow> nat \<Rightarrow> 32 word) \<Rightarrow> 'b world \<Rightarrow> string \<Rightarrow>
     (error + tensor RoCNN) \<times> 'b world" where
  "load_model de init w path =
     (case ask_create w path of
        (Inl e, w2) \<Rightarrow> (Inl e, w2)
      | (Inr create, w2) \<Rightarrow>
          let model = RoCNN_init init
          in if create then (Inr model, py_print w2 ''new model created'')
             else
               (case torch_load de w2 path of
                  (Inl e, w3) \<Rightarrow> (Inl e, w3)
                | (Inr sd, w3) \<Rightarrow>
                    (case load_state_dict model sd of
                       Inl e \<Rightarrow> (Inl e, w3)
                     | Inr model' \<Rightarrow>
                         (Inr model', py_print w3 (''model loaded from \"'' @ path @ ''\"'')))))"

section \<open>The forward pass on buffers\<close>

text \<open>
  The ReLU layers are built with \<^verbatim>\<open>inplace=True\<close>: they overwrite the tensor they are
  given. To follow what a forward pass overwrites, tensors are here references into a store
  of buffers: a reference is a shape and the index of the buffer that holds the elements.
  \<^verbatim>\<open>Conv2d\<close>, \<^verbatim>\<open>MaxPool2d\<close> and \<^verbatim>\<open>Linear\<close> return a new tensor (a new buffer at the end
  of the store), \<^verbatim>\<open>ReLU(inplace=True)\<close> writes into the buffer of its argument and
  returns it, and \<^verbatim>\<open>Flatten\<close> returns a view: another shape on the same buffer. The
  parameters of the model are references too.
\<close>

type_synonym store = "32 word list list"

record tref =
  tshape :: "nat list"
  buf :: nat

definition deref :: "store \<Rightarrow> tref \<Rightarrow> tensor" where
  "deref s r = \<lparr>shape = tshape r, dat = s ! buf r\<rparr>"

definition new_tensor :: "store \<Rightarrow> tensor \<Rightarrow> store \<times> tref" where
  "new_tensor s t = (s @ [dat t], \<lparr>tshape = shape t, buf = length s\<rparr>)"

definition Conv2d_st ::
  "kernels \<Rightarrow> conv_cfg \<Rightarrow> tref \<Rightarrow> tref \<Rightarrow> store \<times> tref \<Rightarrow> error + store \<times> tref" where
  "Conv2d_st K c weight bias st =
     (case st of (s, x) \<Rightarrow>
        case Conv2d K c (deref s weight) (deref s bias) (deref s x) of
          Inl e \<Rightarrow> Inl e
        | Inr y \<Rightarrow> Inr (new_tensor s y))"

definition ReLU_inplace :: "kernels \<Rightarrow> store \<times> tref \<Rightarrow> error + store \<times> tref" where
  "ReLU_inplace K st = (case st of (s, x) \<Rightarrow> Inr (s[buf x := relu_k K (s ! buf x)], x))"

definition MaxPool2d_st :: "kernels \<Rightarrow> pool_cfg \<Rightarrow> store \<times> tref \<Rightarrow> error + store \<times> tref" where
  "MaxPool2d_st K c st =
     (case st of (s, x) \<Rightarrow>
        case MaxPool2d K c (deref s x) of
          Inl e \<Rightarrow> Inl e
        | Inr y \<Rightarrow> Inr (new_tensor s y))"

definition Flatten_view :: "store \<times> tref \<Rightarrow> error + store \<times> tref" where
  "Flatten_view st =
     (case st of (s, x) \<Rightarrow>
        case Flatten (deref s x) of
          Inl e \<Rightarrow> Inl e
        | Inr y \<Rightarrow> Inr (s, \<lparr>tshape = shape y, buf = buf x\<rparr>))"

definition Linear_st ::
  "kernels \<Rightarrow> linear_cfg \<Rightarrow> tref \<Rightarrow> tref \<Rightarrow> store \<times> tref \<Rightarrow> error + store \<times> tref" where
  "Linear_st K c weight bias st =
     (case st of (s, x) \<Rightarrow>
        case Linear K c (deref s weight) (deref s bias) (deref s x) of
          Inl e \<Rightarrow> Inl e
        | Inr y \<Rightarrow> Inr (new_tensor s y))"

definition cv1_st :: "kernels \<Rightarrow> tref RoCNN \<Rightarrow> store \<times> tref \<Rightarrow> error + store \<times> tref" where
  "cv1_st K m st =
     and_then (Conv2d_st K cv1_cfg (cv1_weight m) (cv1_bias m) st) (ReLU_inplace K)"

definition cv2_st :: "kernels \<Rightarrow> tref RoCNN \<Rightarrow> store \<times> tref \<Rightarrow> error + store \<times> tref" where
  "cv2_st K m st =
     and_then (Conv2d_st K cv2_cfg (cv2_weight m) (cv2_bias m) st) (ReLU_inplace K)"

definition cv3_st :: "kernels \<Rightarrow> tref RoCNN \<Rightarrow> store \<times> tref \<Rightarrow> error + store \<times> tref" where
  "cv3_st K m st =
     and_then (Conv2d_st K cv3_cfg (cv3_weight m) (cv3_bias m) st) (ReLU_inplace K)"

definition mp1_st :: "kernels \<Rightarrow> store \<times> tref \<Rightarrow> error + store \<times> tref" where
  "mp1_st K st = MaxPool2d_st K mp1_cfg st"

definition mp2_st :: "kernels \<Rightarrow> store \<times> tref \<Rightarrow> error + store \<times> tref" where
  "mp2_st K st = MaxPool2d_st K mp2_cfg st"

definition fc1_st :: "kernels \<Rightarrow> tref RoCNN \<Rightarrow> store \<times> tref \<Rightarrow> error + store \<times> tref" where
  "fc1_st K m st =
     and_then (Linear_st K fc1_cfg (fc1_weight m) (fc1_bias m) st) (ReLU_inplace K)"

definition fc2_st :: "kernels \<Rightarrow> tref RoCNN \<Rightarrow> store \<times> tref \<Rightarrow> error + store \<times> tref" where
  "fc2_st K m st =
     and_then (Linear_st K fc2_cfg (fc2_weight m) (fc2_bias m) st) (ReLU_inplace K)"

definition fc3_st :: "kernels \<Rightarrow> tref RoCNN \<Rightarrow> store \<times> tref \<Rightarrow> error + store \<times> tref" where
  "fc3_st K m st = Linear_st K fc3_cfg (fc3_weight m) (fc3_bias m) st"

definition stages_st ::
  "kernels \<Rightarrow> tref RoCNN \<Rightarrow> (store \<times> tref \<Rightarrow> error + store \<times> tref) list" where
  "stages_st K m =
     [cv1_st K m, mp1_st K, cv2_st K m, cv3_st K m, mp2_st K, Flatten_view,
      fc1_st K m, fc2_st K m, fc3_st K m]"

definition forward_st ::
  "kernels \<Rightarrow> tref RoCNN \<Rightarrow> store \<times> tref \<Rightarrow> error + store \<times> tref" where
  "forward_st K m st = run_stages (stages_st K m) st"

text \<open>
  The values of the parameters in a store, and the references of a model and of an input
  being to buffers of the store.
\<close>

definition deref_model :: "store \<Rightarrow> tref RoCNN \<Rightarrow> tensor RoCNN" where
  "deref_model s m =
     \<lparr>cv1_weight = deref s (cv1_weight m), cv1_bias = deref s (cv1_bias m),
      cv2_weight = deref s (cv2_weight m), cv2_bias = deref s (cv2_bias m),
      cv3_weight = deref s (cv3_weight m), cv3_bias = deref s (cv3_bias m),
      fc1_weight = deref s (fc1_weight m), fc1_bias = deref s (fc1_bias m),
      fc2_weight = deref s (fc2_weight m), fc2_bias = deref s (fc2_bias m),
      fc3_weight = deref s (fc3_weight m), fc3_bias = deref s (fc3_bias m)\<rparr>"

definition param_refs :: "tref RoCNN \<Rightarrow> tref list" where
  "param_refs m =
     [cv1_weight m, cv1_bias m, cv2_weight m, cv2_bias m, cv3_weight m, cv3_bias m,
      fc1_weight m, fc1_bias m, fc2_weight m, fc2_bias m, fc3_weight m, fc3_bias m]"

definition valid_refs :: "store \<Rightarrow> tref RoCNN \<Rightarrow> tref \<Rightarrow> bool" where
  "valid_refs s m x = (buf x < length s \<and> list_all (\<lambda>r. buf r < length s) (param_refs m))"

section \<open>Relating the forward pass on buffers to the forward pass on values\<close>

text \<open>
  \<open>sim s0 x (s, r)\<close>: the store \<open>s\<close> extends \<open>s0\<close> without having changed any of its
  buffers, and the reference \<open>r\<close> is to a buffer of \<open>s\<close> and has the value \<open>x\<close>.
  \<open>simf\<close> adds that the buffer of \<open>r\<close> is not one of \<open>s0\<close>. A stage on buffers refines
  a stage on values when, from related arguments, both raise the same error or both return,
  with related results.
\<close>

definition sim :: "store \<Rightarrow> tensor \<Rightarrow> store \<times> tref \<Rightarrow> bool" where
  "sim s0 x st = (case st of (s, r) \<Rightarrow> take (length s0) s = s0 \<and> length s0 \<le> length s \<and>
       buf r < length s \<and> deref s r = x)"

definition simf :: "store \<Rightarrow> tensor \<Rightarrow> store \<times> tref \<Rightarrow> bool" where
  "simf s0 x st = (sim s0 x st \<and> length s0 \<le> buf (snd st))"

definition refines ::
  "(tensor \<Rightarrow> store \<times> tref \<Rightarrow> bool) \<Rightarrow> (tensor \<Rightarrow> store \<times> tref \<Rightarrow> bool) \<Rightarrow>
   (store \<times> tref \<Rightarrow> error + store \<times> tref) \<Rightarrow> (tensor \<Rightarrow> error + tensor) \<Rightarrow> bool" where
  "refines P Q h f =
     (\<forall>st x. P x st \<longrightarrow>
        (case f x of
           Inl e \<Rightarrow> h st = Inl e
         | Inr y \<Rightarrow> \<exists>st'. h st = Inr st' \<and> Q y st'))"

section \<open>Example values\<close>

text \<open>
  A backend whose convolutions and linear layers return their bias and whose ReLU and
  pooling return their input, and a batch of \<open>n\<close> images of zeros. They stand for the
  backend and the input where a property is evaluated on concrete values.
\<close>

definition bias_kernels :: kernels where
  "bias_kernels =
     \<lparr>conv_k = (\<lambda>c weight bias x. dat bias),
      relu_k = (\<lambda>d. d),
      pool_k = (\<lambda>c x. dat x),
      linear_k = (\<lambda>c weight bias x. dat bias)\<rparr>"

definition zero_images :: "nat \<Rightarrow> tensor" where
  "zero_images n = \<lparr>shape = [n, 6, 64, 64], dat = replicate (n * 6 * 64 * 64) 0\<rparr>"

definition zero_init :: "string \<Rightarrow> nat \<Rightarrow> 32 word" where
  "zero_init name i = 0"

text \<open>
  The separators of Windows, and an operating system that refuses no name.
\<close>

definition windows_separators :: "char list" where
  "windows_separators = [backslash, slash]"

definition refuses_nothing :: "string \<Rightarrow> bool" where
  "refuses_nothing p = False"

text \<open>
  A serialisation that keeps the state dictionary as it is, initialisers that draw only
  zeros or only ones, and three states of the file system: one with a checkpoint at the
  bare file name \<^verbatim>\<open>model.pth\<close>, one with a folder \<^verbatim>\<open>saved\<close> and a checkpoint
  \<^verbatim>\<open>saved\m.pth\<close> in it, and one with nothing in it and the given lines on standard input.
\<close>

definition plain_ser :: "state_dict \<Rightarrow> state_dict" where
  "plain_ser sd = sd"

definition plain_de :: "state_dict \<Rightarrow> error + state_dict" where
  "plain_de b = Inr b"

definition one_init :: "string \<Rightarrow> nat \<Rightarrow> 32 word" where
  "one_init name i = 1"

definition saved_path :: string where
  "saved_path = ''saved'' @ [backslash] @ ''m.pth''"

definition nested_path :: string where
  "nested_path = ''runs'' @ [backslash] @ ''cnn'' @ [backslash] @ ''m.pth''"

definition bare_world :: "state_dict world" where
  "bare_world =
     \<lparr>nodes = [''model.pth'' \<mapsto> File (plain_ser (state_dict (RoCNN_init zero_init)))],
      stdin = [], events = [], separators = windows_separators, refuses = refuses_nothing\<rparr>"

definition saved_world :: "state_dict world" where
  "saved_world =
     \<lparr>nodes = [''saved'' \<mapsto> Dir,
               saved_path \<mapsto> File (plain_ser (state_dict (RoCNN_init zero_init)))],
      stdin = [], events = [], separators = windows_separators, refuses = refuses_nothing\<rparr>"

definition empty_world :: "string list \<Rightarrow> state_dict world" where
  "empty_world answers =
     \<lparr>nodes = Map.empty, stdin = answers, events = [],
      separators = windows_separators, refuses = refuses_nothing\<rparr>"

text \<open>
  A state of the file system with a folder \<^verbatim>\<open>saved\<close> and a checkpoint in it, the path
  written with a slash.
\<close>

definition slash_world :: "state_dict world" where
  "slash_world =
     \<lparr>nodes = [''saved'' \<mapsto> Dir,
               ''saved/m.pth'' \<mapsto> File (plain_ser (state_dict (RoCNN_init zero_init)))],
      stdin = [], events = [], separators = windows_separators, refuses = refuses_nothing\<rparr>"

text \<open>
  A checkpoint that holds one parameter only, and a state of the file system with that
  checkpoint at \<^verbatim>\<open>saved\m.pth\<close>.
\<close>

definition partial_sd :: state_dict where
  "partial_sd = [(''fc3.bias'', \<lparr>shape = [1], dat = [0]\<rparr>)]"

definition partial_world :: "state_dict world" where
  "partial_world =
     \<lparr>nodes = [''saved'' \<mapsto> Dir, saved_path \<mapsto> File (plain_ser partial_sd)],
      stdin = [], events = [], separators = windows_separators, refuses = refuses_nothing\<rparr>"

text \<open>
  A store that holds the twelve parameters, all zeros, in declaration order, and then one
  image of zeros; the references of a model and of an input into it.
\<close>

definition zero_store :: store where
  "zero_store =
     map (\<lambda>(name, shp). replicate (prod_list shp) 0) declared @ [replicate (1 * 6 * 64 * 64) 0]"

definition zero_refs :: "tref RoCNN" where
  "zero_refs =
     \<lparr>cv1_weight = \<lparr>tshape = conv_weight_shape cv1_cfg, buf = 0\<rparr>,
      cv1_bias = \<lparr>tshape = conv_bias_shape cv1_cfg, buf = 1\<rparr>,
      cv2_weight = \<lparr>tshape = conv_weight_shape cv2_cfg, buf = 2\<rparr>,
      cv2_bias = \<lparr>tshape = conv_bias_shape cv2_cfg, buf = 3\<rparr>,
      cv3_weight = \<lparr>tshape = conv_weight_shape cv3_cfg, buf = 4\<rparr>,
      cv3_bias = \<lparr>tshape = conv_bias_shape cv3_cfg, buf = 5\<rparr>,
      fc1_weight = \<lparr>tshape = linear_weight_shape fc1_cfg, buf = 6\<rparr>,
      fc1_bias = \<lparr>tshape = linear_bias_shape fc1_cfg, buf = 7\<rparr>,
      fc2_weight = \<lparr>tshape = linear_weight_shape fc2_cfg, buf = 8\<rparr>,
      fc2_bias = \<lparr>tshape = linear_bias_shape fc2_cfg, buf = 9\<rparr>,
      fc3_weight = \<lparr>tshape = linear_weight_shape fc3_cfg, buf = 10\<rparr>,
      fc3_bias = \<lparr>tshape = linear_bias_shape fc3_cfg, buf = 11\<rparr>\<rparr>"

definition zero_input :: tref where
  "zero_input = \<lparr>tshape = [1, 6, 64, 64], buf = 12\<rparr>"

section \<open>Shapes of the forward pass\<close>

lemma cv1_shape:
  "shape x = [n, 6, 64, 64] \<Longrightarrow> \<exists>y. cv1 K m x = Inr y \<and> shape y = [n, 32, 31, 31]"
  by (simp add: cv1_def Conv2d_def ReLU_def and_then_def cv1_cfg_def window_out_def)

lemma mp1_shape:
  "shape x = [n, 32, 31, 31] \<Longrightarrow> \<exists>y. mp1 K x = Inr y \<and> shape y = [n, 32, 15, 15]"
  by (simp add: mp1_def MaxPool2d_def mp1_cfg_def window_out_def)

lemma cv2_shape:
  "shape x = [n, 32, 15, 15] \<Longrightarrow> \<exists>y. cv2 K m x = Inr y \<and> shape y = [n, 64, 15, 15]"
  by (simp add: cv2_def Conv2d_def ReLU_def and_then_def cv2_cfg_def window_out_def)

lemma cv3_shape:
  "shape x = [n, 64, 15, 15] \<Longrightarrow> \<exists>y. cv3 K m x = Inr y \<and> shape y = [n, 64, 15, 15]"
  by (simp add: cv3_def Conv2d_def ReLU_def and_then_def cv3_cfg_def window_out_def)

lemma mp2_shape:
  "shape x = [n, 64, 15, 15] \<Longrightarrow> \<exists>y. mp2 K x = Inr y \<and> shape y = [n, 64, 7, 7]"
  by (simp add: mp2_def MaxPool2d_def mp2_cfg_def window_out_def)

lemma Flatten_shape:
  "shape x = [n, 64, 7, 7] \<Longrightarrow> \<exists>y. Flatten x = Inr y \<and> shape y = [n, 3136]"
  by (simp add: Flatten_def)

lemma fc1_shape:
  "shape x = [n, 3136] \<Longrightarrow> \<exists>y. fc1 K m x = Inr y \<and> shape y = [n, 512]"
  by (simp add: fc1_def Linear_def ReLU_def and_then_def fc1_cfg_def)

lemma fc2_shape:
  "shape x = [n, 512] \<Longrightarrow> \<exists>y. fc2 K m x = Inr y \<and> shape y = [n, 64]"
  by (simp add: fc2_def Linear_def ReLU_def and_then_def fc2_cfg_def)

lemma fc3_shape:
  "shape x = [n, 64] \<Longrightarrow> \<exists>y. fc3 K m x = Inr y \<and> shape y = [n, 1]"
  by (simp add: fc3_def Linear_def fc3_cfg_def)

lemma stage_shapes:
  assumes "shape x = [n, 6, 64, 64]"
  shows "map shape (stage_outputs (stages K m) x) =
     [ [n, 32, 31, 31], [n, 32, 15, 15], [n, 64, 15, 15], [n, 64, 15, 15], [n, 64, 7, 7],
      [n, 3136], [n, 512], [n, 64], [n, 1] ]"
proof -
  from assms obtain x1 where 1: "cv1 K m x = Inr x1" "shape x1 = [n, 32, 31, 31]"
    using cv1_shape by blast
  then obtain x2 where 2: "mp1 K x1 = Inr x2" "shape x2 = [n, 32, 15, 15]"
    using mp1_shape by blast
  then obtain x3 where 3: "cv2 K m x2 = Inr x3" "shape x3 = [n, 64, 15, 15]"
    using cv2_shape by blast
  then obtain x4 where 4: "cv3 K m x3 = Inr x4" "shape x4 = [n, 64, 15, 15]"
    using cv3_shape by blast
  then obtain x5 where 5: "mp2 K x4 = Inr x5" "shape x5 = [n, 64, 7, 7]"
    using mp2_shape by blast
  then obtain x6 where 6: "Flatten x5 = Inr x6" "shape x6 = [n, 3136]"
    using Flatten_shape by blast
  then obtain x7 where 7: "fc1 K m x6 = Inr x7" "shape x7 = [n, 512]"
    using fc1_shape by blast
  then obtain x8 where 8: "fc2 K m x7 = Inr x8" "shape x8 = [n, 64]"
    using fc2_shape by blast
  then obtain x9 where 9: "fc3 K m x8 = Inr x9" "shape x9 = [n, 1]"
    using fc3_shape by blast
  show ?thesis
    by (simp add: stages_def 1 2 3 4 5 6 7 8 9)
qed

lemma run_stages_outputs:
  "length (stage_outputs fs x) = length fs \<Longrightarrow>
   run_stages fs x = Inr (last (x # stage_outputs fs x))"
proof (induction fs arbitrary: x)
  case Nil
  then show ?case by simp
next
  case (Cons f fs)
  then show ?case
    by (cases "f x") (simp_all add: and_then_def)
qed

lemma forward_shape:
  assumes "shape x = [n, 6, 64, 64]"
  shows "\<exists>y. forward K m x = Inr y \<and> shape y = [n, 1]"
proof -
  let ?out = "stage_outputs (stages K m) x"
  have sh: "map shape ?out =
     [ [n, 32, 31, 31], [n, 32, 15, 15], [n, 64, 15, 15], [n, 64, 15, 15], [n, 64, 7, 7],
      [n, 3136], [n, 512], [n, 64], [n, 1] ]"
    using assms by (rule stage_shapes)
  then have len: "length ?out = length (stages K m)"
    using length_map [of shape ?out] by (simp add: stages_def)
  then have ne: "?out \<noteq> []"
    by (auto simp: stages_def)
  have "forward K m x = Inr (last ?out)"
    using run_stages_outputs [OF len] ne by (simp add: forward_def)
  moreover have "shape (last ?out) = [n, 1]"
    using sh ne last_map [of ?out shape] by simp
  ultimately show ?thesis by blast
qed

text \<open>
  C2. For every input of shape \<open>(B, 6, 64, 64)\<close> with \<open>B \<ge> 1\<close>, whatever the
  parameters and the backend, \<open>forward\<close> returns (it does not raise) a tensor of shape
  \<open>(B, 1)\<close>.
\<close>

theorem forward_output_shape:
  assumes "1 \<le> B" and "shape x = [B, 6, 64, 64]"
  shows "\<exists>y. forward K m x = Inr y \<and> shape y = [B, 1]"
  using assms(2) by (rule forward_shape)

theorem forward_output_shape_witness:
  "(1::nat) \<le> 3 \<and> shape (zero_images 3) = [3, 6, 64, 64] \<and>
   (\<exists>y. forward bias_kernels (RoCNN_init zero_init) (zero_images 3) = Inr y \<and> shape y = [3, 1])"
  using forward_output_shape [of 3 "zero_images 3" bias_kernels "RoCNN_init zero_init"]
  by (simp add: zero_images_def)

text \<open>
  C3. The shape chain. For an input of shape \<open>(n, 6, 64, 64)\<close> (a single image is
  \<open>n = 1\<close>), the values of \<^verbatim>\<open>x\<close> after the nine stages of \<open>forward\<close> (conv A,
  max-pool A, conv B, conv C, max-pool B, flatten, dense A, dense B, dense C) have, per
  image, the shapes 31x31x32, 15x15x32, 15x15x64, 15x15x64, 7x7x64, 3136, 512, 64, 1, written
  here as torch writes them, \<open>(n, channels, height, width)\<close>; the last of them is what
  \<open>forward\<close> returns; and the output channel count of each layer with parameters is the
  input channel count of the next one (the flattened 7x7x64 for the first linear layer).
\<close>

theorem shape_chain:
  assumes "shape x = [n, 6, 64, 64]"
  shows "map shape (stage_outputs (stages K m) x) =
           [ [n, 32, 31, 31], [n, 32, 15, 15], [n, 64, 15, 15], [n, 64, 15, 15], [n, 64, 7, 7],
            [n, 3136], [n, 512], [n, 64], [n, 1] ] \<and>
         forward K m x = Inr (last (stage_outputs (stages K m) x)) \<and>
         out_channels cv1_cfg = in_channels cv2_cfg \<and>
         out_channels cv2_cfg = in_channels cv3_cfg \<and>
         7 * 7 * out_channels cv3_cfg = in_features fc1_cfg \<and>
         out_features fc1_cfg = in_features fc2_cfg \<and>
         out_features fc2_cfg = in_features fc3_cfg"
proof -
  let ?out = "stage_outputs (stages K m) x"
  have sh: "map shape ?out =
     [ [n, 32, 31, 31], [n, 32, 15, 15], [n, 64, 15, 15], [n, 64, 15, 15], [n, 64, 7, 7],
      [n, 3136], [n, 512], [n, 64], [n, 1] ]"
    using assms by (rule stage_shapes)
  then have len: "length ?out = length (stages K m)"
    using length_map [of shape ?out] by (simp add: stages_def)
  then have ne: "?out \<noteq> []"
    by (auto simp: stages_def)
  have fw: "forward K m x = Inr (last ?out)"
    using run_stages_outputs [OF len] ne by (simp add: forward_def)
  have ch: "out_channels cv1_cfg = in_channels cv2_cfg \<and>
         out_channels cv2_cfg = in_channels cv3_cfg \<and>
         7 * 7 * out_channels cv3_cfg = in_features fc1_cfg \<and>
         out_features fc1_cfg = in_features fc2_cfg \<and>
         out_features fc2_cfg = in_features fc3_cfg"
    by (simp add: cv1_cfg_def cv2_cfg_def cv3_cfg_def fc1_cfg_def fc2_cfg_def fc3_cfg_def)
  from sh fw ch show ?thesis by blast
qed

theorem shape_chain_witness:
  "shape (zero_images 1) = [1, 6, 64, 64] \<and>
   map shape (stage_outputs (stages bias_kernels (RoCNN_init zero_init)) (zero_images 1)) =
     [ [1, 32, 31, 31], [1, 32, 15, 15], [1, 64, 15, 15], [1, 64, 15, 15], [1, 64, 7, 7],
      [1, 3136], [1, 512], [1, 64], [1, 1] ]"
  using shape_chain [of "zero_images 1" 1 bias_kernels "RoCNN_init zero_init"]
  by (simp add: zero_images_def)

section \<open>Paths, the file system and the console\<close>

lemma rfind_None_iff: "rfind c s = None \<longleftrightarrow> c \<notin> set s"
  by (induction s) (auto split: option.splits)

lemma rfind_Some_less: "rfind c s = Some i \<Longrightarrow> i < length s \<and> s ! i = c"
  by (induction s arbitrary: i) (auto split: option.splits if_splits)

lemma rfind_Some_highest:
  "rfind c s = Some i \<Longrightarrow> i < j \<Longrightarrow> j < length s \<Longrightarrow> s ! j \<noteq> c"
proof (induction s arbitrary: i j)
  case Nil
  then show ?case by simp
next
  case (Cons x xs)
  from Cons.prems(2) obtain j' where j: "j = Suc j'" by (cases j) auto
  show ?case
  proof (cases "rfind c xs")
    case None
    then have "c \<notin> set xs" by (simp add: rfind_None_iff)
    moreover have "j' < length xs" using Cons.prems(3) j by simp
    ultimately show ?thesis using j by (metis nth_Cons_Suc nth_mem)
  next
    case (Some k)
    with Cons.prems(1) have "i = Suc k" by simp
    with Cons.prems j have "k < j'" "j' < length xs" by simp_all
    from Cons.IH [OF Some this] show ?thesis using j by simp
  qed
qed

lemma rfind_last:
  assumes "rfind c s = Some i" and "Suc i < length s"
  shows "last s \<noteq> c"
proof -
  have "s \<noteq> []" using assms(2) by auto
  then have "last s = s ! (length s - 1)" by (rule last_conv_nth)
  moreover have "s ! (length s - 1) \<noteq> c"
    using assms by (intro rfind_Some_highest [OF assms(1)]) simp_all
  ultimately show ?thesis by simp
qed

lemma log_event_simps:
  "nodes (log_event w e) = nodes w"
  "stdin (log_event w e) = stdin w"
  "events (log_event w e) = events w @ [e]"
  "entry (log_event w e) p = entry w p"
  by (simp_all add: log_event_def entry_def)

lemma entry_events_update: "entry (w\<lparr>events := es\<rparr>) p = entry w p"
  by (simp add: entry_def)

lemma entry_nodes_update:
  "entry (w\<lparr>nodes := f\<rparr>) p = (if p = [] then None else f p)"
  by (simp add: entry_def)

lemma os_path_exists_eq:
  "os_path_exists w p = (entry w p \<noteq> None, log_event w (Ev_exists p))"
  by (simp add: os_path_exists_def)

lemma os_mkdir_Inr:
  assumes "os_mkdir w p = (Inr u, w')"
  shows "w' = w\<lparr>nodes := (nodes w)(p \<mapsto> Dir)\<rparr> \<and> p \<noteq> []"
  using assms by (auto simp: os_mkdir_def split: if_splits)

lemma os_mkdir_events: "os_mkdir w p = (r, w') \<Longrightarrow> events w' = events w"
  by (auto simp: os_mkdir_def split: if_splits)

lemma make_missing_events: "make_missing w as = (r, w') \<Longrightarrow> events w' = events w"
proof (induction as arbitrary: w)
  case Nil
  then show ?case by simp
next
  case (Cons a as)
  show ?case
  proof (cases "entry w a")
    case None
    obtain r1 w1 where mk: "os_mkdir w a = (r1, w1)" by (cases "os_mkdir w a")
    show ?thesis
    proof (cases r1)
      case (Inl e)
      with Cons.prems None mk have "w' = w1" by simp
      then show ?thesis using os_mkdir_events [OF mk] by simp
    next
      case (Inr v)
      with Cons.prems None mk have "make_missing w1 as = (r, w')" by simp
      from Cons.IH [OF this] show ?thesis using os_mkdir_events [OF mk] by simp
    qed
  next
    case (Some n)
    show ?thesis
    proof (cases n)
      case Dir
      with Cons.prems Some have "make_missing w as = (r, w')" by simp
      then show ?thesis by (rule Cons.IH)
    next
      case (File b)
      with Cons.prems Some show ?thesis by simp
    qed
  qed
qed

lemma os_makedirs_Inr:
  assumes "os_makedirs w p = (Inr u, w')"
  shows "entry w' p = Some Dir \<and> events w' = events w @ [Ev_makedirs p]"
proof -
  obtain r1 w1 where mm: "make_missing w (ancestors w p) = (r1, w1)"
    by (cases "make_missing w (ancestors w p)")
  obtain r2 w2 where mk: "os_mkdir w1 p = (r2, w2)"
    by (cases "os_mkdir w1 p")
  from assms mm obtain v1 where r1: "r1 = Inr v1"
    by (cases r1) (auto simp: os_makedirs_def)
  from assms mm mk r1 obtain v2 where r2: "r2 = Inr v2"
    by (cases r2) (auto simp: os_makedirs_def)
  from assms mm mk r1 r2 have w': "w' = log_event w2 (Ev_makedirs p)"
    by (simp add: os_makedirs_def)
  from os_mkdir_Inr [OF mk [unfolded r2]]
  have w2: "w2 = w1\<lparr>nodes := (nodes w1)(p \<mapsto> Dir)\<rparr>" and ne: "p \<noteq> []" by simp_all
  have "events w2 = events w"
    using make_missing_events [OF mm] by (simp add: w2)
  then show ?thesis
    using ne by (simp add: w' w2 log_event_simps entry_def)
qed

lemma makedirs_calls_events:
  "events w' = events w @ es \<Longrightarrow>
   makedirs_calls w' =
     makedirs_calls w @ concat (map (\<lambda>e. case e of Ev_makedirs p \<Rightarrow> [p] | _ \<Rightarrow> []) es)"
  by (simp add: makedirs_calls_def)

lemma makedirs_calls_log_event:
  "makedirs_calls (log_event w e) =
     makedirs_calls w @ (case e of Ev_makedirs p \<Rightarrow> [p] | _ \<Rightarrow> [])"
  by (simp add: makedirs_calls_def log_event_def)

lemma makedirs_calls_nodes_update:
  "makedirs_calls (w\<lparr>nodes := f\<rparr>) = makedirs_calls w"
  by (simp add: makedirs_calls_def)

lemma torch_save_existing:
  assumes "entry w p = Some (File b)"
  shows "torch_save ser w obj p =
           (Inr (), log_event (w\<lparr>nodes := (nodes w)(p \<mapsto> File (ser obj))\<rparr>) (Ev_save p))"
  using assms by (simp add: torch_save_def can_open_for_writing_def)

lemma torch_save_Inr_world:
  assumes "torch_save ser w obj p = (Inr u, w')"
  shows "w' = log_event (w\<lparr>nodes := (nodes w)(p \<mapsto> File (ser obj))\<rparr>) (Ev_save p) \<and> p \<noteq> []"
proof -
  have "can_open_for_writing w p"
    using assms by (auto simp: torch_save_def split: if_splits)
  then have "p \<noteq> []"
    by (auto simp: can_open_for_writing_def can_create_def entry_def
        split: option.splits node.splits)
  then show ?thesis
    using assms by (auto simp: torch_save_def split: if_splits)
qed

lemma torch_save_Inr:
  assumes "torch_save ser w obj p = (Inr u, w')"
  shows "entry w' p = Some (File (ser obj))"
  using torch_save_Inr_world [OF assms] by (simp add: entry_def log_event_def)

lemma save_and_report_Inr_world:
  assumes "save_and_report ser w m p = (Inr u, w')"
  shows "w' = py_print
                (log_event (w\<lparr>nodes := (nodes w)(p \<mapsto> File (ser (state_dict m)))\<rparr>) (Ev_save p))
                (''model saved to \"'' @ p @ ''\".'') \<and> p \<noteq> []"
proof (cases "torch_save ser w (state_dict m) p")
  case (Pair r w'')
  with assms obtain v where r: "r = Inr v" and w': "w' = py_print w'' (''model saved to \"'' @ p @ ''\".'')"
    by (cases r) (auto simp: save_and_report_def)
  from Pair r show ?thesis
    using torch_save_Inr_world [of ser w "state_dict m" p v w''] by (simp add: w')
qed

lemma save_and_report_Inr:
  assumes "save_and_report ser w m p = (Inr u, w')"
  shows "entry w' p = Some (File (ser (state_dict m)))"
proof (cases "torch_save ser w (state_dict m) p")
  case (Pair r w'')
  with assms obtain v where r: "r = Inr v" and w': "w' = py_print w'' (''model saved to \"'' @ p @ ''\".'')"
    by (cases r) (auto simp: save_and_report_def)
  from Pair r have "entry w'' p = Some (File (ser (state_dict m)))"
    using torch_save_Inr by blast
  then show ?thesis by (simp add: w' py_print_def log_event_simps)
qed

section \<open>State dictionaries\<close>

lemma keys_state_dict: "map fst (state_dict m) = map fst declared"
  by (simp add: state_dict_def declared_def)

lemma tensor_copy_same: "shape p = shape (t::tensor) \<Longrightarrow> p\<lparr>dat := dat t\<rparr> = t"
  by (cases p, cases t) simp

lemma copy_param_found:
  "map_of sd name = Some t \<Longrightarrow> shape t = shape param \<Longrightarrow> copy_param sd name param = t"
  by (simp add: copy_param_def tensor_copy_same)

lemma shape_fresh_param: "shape (fresh_param init name shp) = shp"
  by (simp add: fresh_param_def)

lemma map_of_state_dict:
  "map_of (state_dict m) ''cv1.0.weight'' = Some (cv1_weight m)"
  "map_of (state_dict m) ''cv1.0.bias'' = Some (cv1_bias m)"
  "map_of (state_dict m) ''cv2.0.weight'' = Some (cv2_weight m)"
  "map_of (state_dict m) ''cv2.0.bias'' = Some (cv2_bias m)"
  "map_of (state_dict m) ''cv3.0.weight'' = Some (cv3_weight m)"
  "map_of (state_dict m) ''cv3.0.bias'' = Some (cv3_bias m)"
  "map_of (state_dict m) ''fc1.0.weight'' = Some (fc1_weight m)"
  "map_of (state_dict m) ''fc1.0.bias'' = Some (fc1_bias m)"
  "map_of (state_dict m) ''fc2.0.weight'' = Some (fc2_weight m)"
  "map_of (state_dict m) ''fc2.0.bias'' = Some (fc2_bias m)"
  "map_of (state_dict m) ''fc3.weight'' = Some (fc3_weight m)"
  "map_of (state_dict m) ''fc3.bias'' = Some (fc3_bias m)"
  by (simp_all add: state_dict_def)

lemma declared_shapesD:
  assumes "declared_shapes m"
  shows "shape (cv1_weight m) = conv_weight_shape cv1_cfg"
    "shape (cv1_bias m) = conv_bias_shape cv1_cfg"
    "shape (cv2_weight m) = conv_weight_shape cv2_cfg"
    "shape (cv2_bias m) = conv_bias_shape cv2_cfg"
    "shape (cv3_weight m) = conv_weight_shape cv3_cfg"
    "shape (cv3_bias m) = conv_bias_shape cv3_cfg"
    "shape (fc1_weight m) = linear_weight_shape fc1_cfg"
    "shape (fc1_bias m) = linear_bias_shape fc1_cfg"
    "shape (fc2_weight m) = linear_weight_shape fc2_cfg"
    "shape (fc2_bias m) = linear_bias_shape fc2_cfg"
    "shape (fc3_weight m) = linear_weight_shape fc3_cfg"
    "shape (fc3_bias m) = linear_bias_shape fc3_cfg"
  using assms by (simp_all add: declared_shapes_def state_dict_def declared_def)

lemma declared_shapes_init: "declared_shapes (RoCNN_init init)"
  by (simp add: declared_shapes_def state_dict_def declared_def RoCNN_init_def shape_fresh_param)

lemma load_state_dict_own:
  assumes "declared_shapes m" and "declared_shapes m0"
  shows "load_state_dict m0 (state_dict m) = Inr m"
proof -
  note sh = declared_shapesD [OF assms(1)] declared_shapesD [OF assms(2)]
  have cp: "copy_param (state_dict m) ''cv1.0.weight'' (cv1_weight m0) = cv1_weight m"
    "copy_param (state_dict m) ''cv1.0.bias'' (cv1_bias m0) = cv1_bias m"
    "copy_param (state_dict m) ''cv2.0.weight'' (cv2_weight m0) = cv2_weight m"
    "copy_param (state_dict m) ''cv2.0.bias'' (cv2_bias m0) = cv2_bias m"
    "copy_param (state_dict m) ''cv3.0.weight'' (cv3_weight m0) = cv3_weight m"
    "copy_param (state_dict m) ''cv3.0.bias'' (cv3_bias m0) = cv3_bias m"
    "copy_param (state_dict m) ''fc1.0.weight'' (fc1_weight m0) = fc1_weight m"
    "copy_param (state_dict m) ''fc1.0.bias'' (fc1_bias m0) = fc1_bias m"
    "copy_param (state_dict m) ''fc2.0.weight'' (fc2_weight m0) = fc2_weight m"
    "copy_param (state_dict m) ''fc2.0.bias'' (fc2_bias m0) = fc2_bias m"
    "copy_param (state_dict m) ''fc3.weight'' (fc3_weight m0) = fc3_weight m"
    "copy_param (state_dict m) ''fc3.bias'' (fc3_bias m0) = fc3_bias m"
    by (simp_all add: copy_param_found map_of_state_dict sh)
  have missing: "[k. (k, param) \<leftarrow> state_dict m0, map_of (state_dict m) k = None] = []"
    by (simp add: state_dict_def)
  have unexpected: "[k. (k, t) \<leftarrow> state_dict m, map_of (state_dict m0) k = None] = []"
    by (simp add: state_dict_def)
  have mismatched: "[k. (k, param) \<leftarrow> state_dict m0,
      case map_of (state_dict m) k of None \<Rightarrow> False | Some t \<Rightarrow> shape t \<noteq> shape param] = []"
    by (simp add: state_dict_def [of m0] map_of_state_dict sh)
  show ?thesis
    unfolding load_state_dict_def Let_def missing unexpected mismatched cp
    by simp
qed

lemma load_state_dict_keys_differ:
  assumes "set (map fst sd) \<noteq> set (map fst (state_dict m))"
  shows "\<exists>missing unexpected mismatched.
           load_state_dict m sd = Inl (RuntimeError_state_dict missing unexpected mismatched) \<and>
           (missing \<noteq> [] \<or> unexpected \<noteq> [])"
proof -
  let ?own = "state_dict m"
  let ?missing = "[k. (k, param) \<leftarrow> ?own, map_of sd k = None]"
  let ?unexpected = "[k. (k, t) \<leftarrow> sd, map_of ?own k = None]"
  have "?missing \<noteq> [] \<or> ?unexpected \<noteq> []"
  proof (rule ccontr)
    assume "\<not> (?missing \<noteq> [] \<or> ?unexpected \<noteq> [])"
    then have mi: "?missing = []" and un: "?unexpected = []" by blast+
    have "\<forall>k \<in> fst ` set ?own. k \<in> fst ` set sd"
      using mi by (auto simp: map_of_eq_None_iff split: if_splits)
    moreover have "\<forall>k \<in> fst ` set sd. k \<in> fst ` set ?own"
      using un by (auto simp: map_of_eq_None_iff split: if_splits)
    ultimately have "set (map fst sd) = set (map fst ?own)"
      by auto
    with assms show False by contradiction
  qed
  then have "\<not> (?missing = [] \<and> ?unexpected = [] \<and>
      [k. (k, param) \<leftarrow> ?own,
          case map_of sd k of None \<Rightarrow> False | Some t \<Rightarrow> shape t \<noteq> shape param] = [])"
    by blast
  then have "load_state_dict m sd = Inl (RuntimeError_state_dict ?missing ?unexpected
      [k. (k, param) \<leftarrow> ?own,
          case map_of sd k of None \<Rightarrow> False | Some t \<Rightarrow> shape t \<noteq> shape param])"
    unfolding load_state_dict_def Let_def by (rule if_not_P)
  with \<open>?missing \<noteq> [] \<or> ?unexpected \<noteq> []\<close> show ?thesis
    by blast
qed

section \<open>Behaviour of save_model\<close>

lemma save_model_ValueError:
  assumes "backslash \<notin> set path"
  shows "save_model ser w model path overwrite = (Inl ValueError, w)"
  using assms by (simp add: save_model_def rindex_def rfind_None_iff [THEN iffD2])

lemma save_model_skips:
  assumes "rfind backslash path = Some i"
    and "entry w (take i path) \<noteq> None"
    and "entry w path \<noteq> None"
  shows "save_model ser w model path False =
           (Inr (), log_event (log_event w (Ev_exists (take i path))) (Ev_exists path))"
  using assms
  by (auto simp add: save_model_def rindex_def os_path_exists_eq log_event_simps Let_def)

lemma save_model_replaces:
  assumes "rfind backslash path = Some i"
    and "Suc i < length path"
    and "entry w (take i path) = Some Dir"
    and "entry w path = Some (File b)"
  shows "save_model ser w model path True =
           (Inr (), w\<lparr>nodes := (nodes w)(path \<mapsto> File (ser (state_dict model))),
                       events := events w @ [Ev_exists (take i path), Ev_exists path, Ev_save path,
                          Ev_print (''model saved to \"'' @ path @ ''\".'')]\<rparr>)"
proof -
  let ?w2 = "log_event (log_event w (Ev_exists (take i path))) (Ev_exists path)"
  have "entry ?w2 path = Some (File b)"
    using assms(4) by (simp add: log_event_simps)
  then have "torch_save ser ?w2 (state_dict model) path =
      (Inr (), log_event (?w2\<lparr>nodes := (nodes ?w2)(path \<mapsto> File (ser (state_dict model)))\<rparr>)
                 (Ev_save path))"
    by (rule torch_save_existing)
  then show ?thesis
    using assms
    by (simp add: save_model_def rindex_def os_path_exists_eq log_event_simps Let_def
      save_and_report_def py_print_def)
      (simp add: log_event_def)
qed

lemma save_model_Inr:
  assumes "save_model ser w m path ov = (Inr u, w1)"
  shows "entry w1 path = Some (File (ser (state_dict m))) \<or> (\<not> ov \<and> entry w path \<noteq> None)"
proof (cases "rfind backslash path")
  case None
  with assms show ?thesis by (simp add: save_model_def rindex_def)
next
  case (Some i)
  show ?thesis
  proof (cases "entry w (take i path) = None")
    case True
    let ?wa = "log_event w (Ev_exists (take i path))"
    obtain r w2 where mk: "os_makedirs ?wa (take i path) = (r, w2)"
      by (cases "os_makedirs ?wa (take i path)")
    with assms Some True obtain v where
      "save_and_report ser (py_print w2 (''created new folder at \"'' @ take i path @ ''\"'')) m path = (Inr u, w1)"
      by (cases r) (auto simp: save_model_def rindex_def os_path_exists_eq Let_def)
    then show ?thesis using save_and_report_Inr by blast
  next
    case False
    show ?thesis
    proof (cases "entry w path \<noteq> None \<and> \<not> ov")
      case True
      then show ?thesis by blast
    next
      case nw: False
      with assms Some False have
        "save_and_report ser (log_event (log_event w (Ev_exists (take i path))) (Ev_exists path)) m path = (Inr u, w1)"
        by (auto simp: save_model_def rindex_def os_path_exists_eq Let_def log_event_simps)
      then show ?thesis using save_and_report_Inr by blast
    qed
  qed
qed

lemma save_model_two_calls:
  assumes bs: "rfind backslash path = Some i"
    and nofolder: "entry w (take i path) = None"
    and first: "save_model ser w m path ov1 = (Inr (), w1)"
  shows "entry w1 (take i path) = Some Dir \<and>
         makedirs_calls w1 = makedirs_calls w @ [take i path] \<and>
         (\<exists>w2. save_model ser w1 m' path ov2 = (Inr (), w2) \<and>
               makedirs_calls w2 = makedirs_calls w1)"
proof -
  let ?folder = "take i path"
  let ?wa = "log_event w (Ev_exists ?folder)"
  let ?created = "''created new folder at \"'' @ ?folder @ ''\"''"
  let ?saved = "''model saved to \"'' @ path @ ''\".''"
  obtain r wb where mk: "os_makedirs ?wa ?folder = (r, wb)"
    by (cases "os_makedirs ?wa ?folder")
  from first bs nofolder mk obtain v where r: "r = Inr v"
    by (cases r) (auto simp: save_model_def rindex_def os_path_exists_eq Let_def)
  let ?wc = "py_print wb ?created"
  from first bs nofolder mk r have sr: "save_and_report ser ?wc m path = (Inr (), w1)"
    by (simp add: save_model_def rindex_def os_path_exists_eq Let_def)
  from os_makedirs_Inr [OF mk [unfolded r]]
  have folder_b: "entry wb ?folder = Some Dir"
    and events_b: "events wb = events w @ [Ev_exists ?folder, Ev_makedirs ?folder]"
    by (simp_all add: log_event_simps)
  from save_and_report_Inr_world [OF sr]
  have w1: "w1 = py_print
      (log_event (?wc\<lparr>nodes := (nodes ?wc)(path \<mapsto> File (ser (state_dict m)))\<rparr>) (Ev_save path))
      ?saved" and pne: "path \<noteq> []"
    by simp_all
  have "i < length path" using bs rfind_Some_less by blast
  then have "length ?folder < length path" by simp
  then have neq: "?folder \<noteq> path" by auto
  have fne: "?folder \<noteq> []"
  proof
    assume "?folder = []"
    then have "entry wb ?folder = None" by (simp add: entry_def)
    with folder_b show False by simp
  qed
  have folder_1: "entry w1 ?folder = Some Dir"
    using folder_b neq fne by (simp add: w1 py_print_def log_event_def entry_def)
  have path_1: "entry w1 path = Some (File (ser (state_dict m)))"
    using pne by (simp add: w1 py_print_def log_event_def entry_def)
  have "events w1 = events w @
      [Ev_exists ?folder, Ev_makedirs ?folder, Ev_print ?created, Ev_save path, Ev_print ?saved]"
    by (simp add: w1 py_print_def log_event_def events_b)
  from makedirs_calls_events [OF this]
  have calls_1: "makedirs_calls w1 = makedirs_calls w @ [?folder]"
    by simp
  let ?we = "log_event (log_event w1 (Ev_exists ?folder)) (Ev_exists path)"
  let ?wf = "log_event (?we\<lparr>nodes := (nodes ?we)(path \<mapsto> File (ser (state_dict m')))\<rparr>) (Ev_save path)"
  let ?w2 = "if ov2 then py_print ?wf ?saved else ?we"
  have "entry ?we path = Some (File (ser (state_dict m)))"
    using path_1 by (simp add: log_event_simps)
  then have ts2: "torch_save ser ?we (state_dict m') path = (Inr (), ?wf)"
    by (rule torch_save_existing)
  have second: "save_model ser w1 m' path ov2 = (Inr (), ?w2)"
    using bs folder_1 path_1 ts2
    by (simp add: save_model_def rindex_def os_path_exists_eq Let_def save_and_report_def
        log_event_simps)
  have "events ?w2 = events w1 @
      (if ov2 then [Ev_exists ?folder, Ev_exists path, Ev_save path, Ev_print ?saved]
       else [Ev_exists ?folder, Ev_exists path])"
    by (simp add: py_print_def log_event_def)
  from makedirs_calls_events [OF this]
  have calls_2: "makedirs_calls ?w2 = makedirs_calls w1"
    by simp
  from folder_1 calls_1 second calls_2 show ?thesis by blast
qed

section \<open>Behaviour of load_model\<close>


lemma ask_create_present:
  assumes "entry w path \<noteq> None"
  shows "ask_create w path = (Inr False, log_event w (Ev_exists path))"
  using assms
  by (auto simp add: ask_create_def os_path_exists_eq Let_def)


lemma load_model_present:
  assumes "entry w path = Some (File b)"
  shows "load_model de init w path =
    (case de b of
       Inl e \<Rightarrow> (Inl e, log_event (log_event w (Ev_exists path)) (Ev_load path))
     | Inr sd \<Rightarrow>
        (case load_state_dict (RoCNN_init init) sd of
           Inl e \<Rightarrow> (Inl e, log_event (log_event w (Ev_exists path)) (Ev_load path))
         | Inr model' \<Rightarrow>
            (Inr model', py_print (log_event (log_event w (Ev_exists path)) (Ev_load path))
                           (''model loaded from \"'' @ path @ ''\"''))))"
proof -
  have "ask_create w path = (Inr False, log_event w (Ev_exists path))"
    using assms by (simp add: ask_create_present)
  moreover have "torch_load de (log_event w (Ev_exists path)) path =
      (de b, log_event (log_event w (Ev_exists path)) (Ev_load path))"
    using assms by (simp add: torch_load_def log_event_simps)
  ultimately show ?thesis
    by (simp add: load_model_def Let_def split: sum.splits)
qed

lemma load_model_mismatch:
  assumes "entry w path = Some (File b)" and "de b = Inr sd"
    and "set (map fst sd) \<noteq> set (map fst declared)"
  shows "\<exists>missing unexpected mismatched.
           load_model de init w path =
             (Inl (RuntimeError_state_dict missing unexpected mismatched),
              log_event (log_event w (Ev_exists path)) (Ev_load path)) \<and>
           (missing \<noteq> [] \<or> unexpected \<noteq> [])"
proof -
  have "set (map fst sd) \<noteq> set (map fst (state_dict (RoCNN_init init)))"
    using assms(3) by (simp add: keys_state_dict)
  from load_state_dict_keys_differ [OF this]
  obtain mi un mm where
    "load_state_dict (RoCNN_init init) sd = Inl (RuntimeError_state_dict mi un mm)"
    "mi \<noteq> [] \<or> un \<noteq> []" by blast
  then show ?thesis
    by (simp add: load_model_present [OF assms(1)] assms(2))
qed

lemma load_after_save:
  assumes "declared_shapes m" and "\<forall>sd. de (ser sd) = Inr sd"
    and "save_model ser w m path ov = (Inr (), w1)"
    and "ov \<or> entry w path = None"
  shows "\<exists>w2. load_model de init w1 path = (Inr m, w2)"
proof -
  have fl: "entry w1 path = Some (File (ser (state_dict m)))"
    using save_model_Inr [OF assms(3)] assms(4) by auto
  have "load_state_dict (RoCNN_init init) (state_dict m) = Inr m"
    using assms(1) declared_shapes_init by (rule load_state_dict_own)
  then show ?thesis
    using assms(2) by (simp add: load_model_present [OF fl])
qed

section \<open>Facts about the example values\<close>

lemma rfind_saved_path: "rfind backslash saved_path = Some 5"
  by (simp add: saved_path_def backslash_def)

lemma take_saved_path: "take 5 saved_path = ''saved''"
  by (simp add: saved_path_def)

lemma entry_saved_world:
  "entry saved_world ''saved'' = Some Dir"
  "entry saved_world saved_path = Some (File (plain_ser (state_dict (RoCNN_init zero_init))))"
  by (simp_all add: entry_def saved_world_def saved_path_def)

lemma forward_bias_kernels:
  assumes "shape x = [n, 6, 64, 64]"
  shows "forward bias_kernels m x = Inr \<lparr>shape = [n, 1], dat = dat (fc3_bias m)\<rparr>"
  using assms
  by (simp add: forward_def stages_def cv1_def cv2_def cv3_def mp1_def mp2_def fc1_def fc2_def
      fc3_def Conv2d_def MaxPool2d_def Linear_def ReLU_def Flatten_def and_then_def
      cv1_cfg_def cv2_cfg_def cv3_cfg_def mp1_cfg_def mp2_cfg_def fc1_cfg_def fc2_cfg_def
      fc3_cfg_def window_out_def bias_kernels_def)

lemma fc3_bias_init:
  "dat (fc3_bias (RoCNN_init init)) = [init ''fc3.bias'' 0]"
  by (simp add: RoCNN_init_def fresh_param_def linear_bias_shape_def fc3_cfg_def)

section \<open>Claims about save_model\<close>

text \<open>
  C10. For every path that contains no backslash, \<open>save_model\<close> raises \<^verbatim>\<open>ValueError\<close>
  (from \<^verbatim>\<open>path.rindex("\\")\<close>) and the state is the one it started in: no call to
  \<^verbatim>\<open>os.path.exists\<close>, \<^verbatim>\<open>os.makedirs\<close> or \<^verbatim>\<open>torch.save\<close> has been made. A path
  separated by \<^verbatim>\<open>/\<close> and a bare file name are such paths.
\<close>

theorem save_model_without_backslash:
  assumes "backslash \<notin> set path"
  shows "save_model ser w model path overwrite = (Inl ValueError, w)"
  using assms by (rule save_model_ValueError)

theorem save_model_without_backslash_witness:
  "backslash \<notin> set ''saved/m.pth'' \<and>
   save_model plain_ser saved_world (RoCNN_init one_init) ''saved/m.pth'' True =
     (Inl ValueError, saved_world)"
  using save_model_without_backslash
          [of "''saved/m.pth''" plain_ser saved_world "RoCNN_init one_init" True]
  by (simp add: backslash_def)

text \<open>
  C5, as stated: for every model and every path at which a file exists,
  \<open>save_model\<close> with \<open>overwrite = False\<close> returns without error. It does not: with a
  checkpoint at the bare file name \<^verbatim>\<open>model.pth\<close>, the call raises \<^verbatim>\<open>ValueError\<close>.
\<close>

theorem no_clobber_bare_name_counterexample:
  "entry bare_world ''model.pth'' =
     Some (File (plain_ser (state_dict (RoCNN_init zero_init)))) \<and>
   fst (save_model plain_ser bare_world (RoCNN_init one_init) ''model.pth'' False) =
     Inl ValueError"
proof -
  have "backslash \<notin> set ''model.pth''"
    by (simp add: backslash_def)
  then have "save_model plain_ser bare_world (RoCNN_init one_init) ''model.pth'' False =
      (Inl ValueError, bare_world)"
    by (rule save_model_ValueError)
  then show ?thesis
    by (simp add: entry_def bare_world_def)
qed

text \<open>
  C5, amended: for every model and every path that contains a backslash and whose folder
  (the text before the last backslash) exists, if something exists at the path then
  \<open>save_model\<close> with \<open>overwrite = False\<close> returns without error and changes nothing: the
  files, the directories and standard input are as before, and the only calls made are
  the two calls of \<^verbatim>\<open>os.path.exists\<close>.
\<close>

theorem no_clobber_default:
  assumes "rfind backslash path = Some i"
    and "entry w (take i path) \<noteq> None"
    and "entry w path \<noteq> None"
  shows "save_model ser w model path False =
           (Inr (), w\<lparr>events := events w @ [Ev_exists (take i path), Ev_exists path]\<rparr>)"
  using save_model_skips [OF assms] by (simp add: log_event_def)

theorem no_clobber_default_witness:
  "rfind backslash saved_path = Some 5 \<and>
   entry saved_world (take 5 saved_path) \<noteq> None \<and>
   entry saved_world saved_path \<noteq> None \<and>
   save_model plain_ser saved_world (RoCNN_init one_init) saved_path False =
     (Inr (), saved_world\<lparr>events := events saved_world @
                [Ev_exists (take 5 saved_path), Ev_exists saved_path]\<rparr>)"
  using no_clobber_default [of saved_path 5 saved_world plain_ser "RoCNN_init one_init"]
  by (simp add: rfind_saved_path take_saved_path entry_saved_world)

text \<open>
  C7, as stated: for every model and every path at which a file exists, with its
  containing folder present, \<open>save_model\<close> with \<open>overwrite = True\<close> replaces the
  contents of the file. It does not when the path is written with a slash: the folder
  \<^verbatim>\<open>saved\<close> is a directory and a checkpoint is at \<^verbatim>\<open>saved/m.pth\<close>, but the call raises
  \<^verbatim>\<open>ValueError\<close> and the file holds what it held.
\<close>

theorem overwrite_slash_path_counterexample:
  "entry slash_world ''saved'' = Some Dir \<and>
   entry slash_world ''saved/m.pth'' =
     Some (File (plain_ser (state_dict (RoCNN_init zero_init)))) \<and>
   save_model plain_ser slash_world (RoCNN_init one_init) ''saved/m.pth'' True =
     (Inl ValueError, slash_world)"
proof -
  have "backslash \<notin> set ''saved/m.pth''"
    by (simp add: backslash_def)
  then have "save_model plain_ser slash_world (RoCNN_init one_init) ''saved/m.pth'' True =
      (Inl ValueError, slash_world)"
    by (rule save_model_ValueError)
  then show ?thesis
    by (simp add: entry_def slash_world_def)
qed

text \<open>
  C7, amended: for every model and every path that contains a backslash with a file name
  after the last one, whose folder (the text before the last backslash) is a directory and
  at which a file exists, \<open>save_model\<close> with \<open>overwrite = True\<close> returns without error
  and the contents of the file are the serialisation of the state dictionary of the new
  model; nothing else in the file system changes.
\<close>

theorem save_model_overwrite:
  assumes "rfind backslash path = Some i"
    and "Suc i < length path"
    and "entry w (take i path) = Some Dir"
    and "entry w path = Some (File b)"
  shows "save_model ser w model path True =
           (Inr (), w\<lparr>nodes := (nodes w)(path \<mapsto> File (ser (state_dict model))),
                       events := events w @ [Ev_exists (take i path), Ev_exists path, Ev_save path,
                          Ev_print (''model saved to \"'' @ path @ ''\".'')]\<rparr>)"
  using assms by (rule save_model_replaces)

theorem save_model_overwrite_witness:
  "rfind backslash saved_path = Some 5 \<and>
   Suc 5 < length saved_path \<and>
   entry saved_world (take 5 saved_path) = Some Dir \<and>
   entry saved_world saved_path = Some (File (plain_ser (state_dict (RoCNN_init zero_init)))) \<and>
   entry (snd (save_model plain_ser saved_world (RoCNN_init one_init) saved_path True)) saved_path =
     Some (File (plain_ser (state_dict (RoCNN_init one_init))))"
proof -
  have h1: "rfind backslash saved_path = Some 5"
    by (rule rfind_saved_path)
  have h2: "entry saved_world (take 5 saved_path) = Some Dir"
    by (simp add: take_saved_path entry_saved_world)
  have h3: "entry saved_world saved_path =
      Some (File (plain_ser (state_dict (RoCNN_init zero_init))))"
    by (rule entry_saved_world)
  have ne: "saved_path \<noteq> []"
    by (simp add: saved_path_def)
  have h0: "Suc 5 < length saved_path"
    by (simp add: saved_path_def)
  show ?thesis
    using h0 h1 h2 h3 ne
      save_model_overwrite [OF h1 h0 h2 h3, of plain_ser "RoCNN_init one_init"]
    by (simp add: entry_def)
qed

text \<open>
  C8, as stated: two calls of \<open>save_model\<close> with the same path whose containing nested
  directory does not exist at first create the directory once, in the first call, and the
  second call does not fail. They do not when the path is written with slashes: nothing
  exists, the path is \<^verbatim>\<open>runs/cnn/m.pth\<close>, and both calls raise \<^verbatim>\<open>ValueError\<close> without
  a call of \<^verbatim>\<open>os.makedirs\<close>.
\<close>

theorem save_twice_slash_path_counterexample:
  "entry (empty_world []) ''runs/cnn'' = None \<and>
   save_model plain_ser (empty_world []) (RoCNN_init zero_init) ''runs/cnn/m.pth'' False =
     (Inl ValueError, empty_world []) \<and>
   fst (save_model plain_ser
          (snd (save_model plain_ser (empty_world []) (RoCNN_init zero_init)
                  ''runs/cnn/m.pth'' False))
          (RoCNN_init zero_init) ''runs/cnn/m.pth'' False) = Inl ValueError \<and>
   makedirs_calls
     (snd (save_model plain_ser (empty_world []) (RoCNN_init zero_init)
             ''runs/cnn/m.pth'' False)) = []"
proof -
  have "backslash \<notin> set ''runs/cnn/m.pth''"
    by (simp add: backslash_def)
  then have "save_model plain_ser w (RoCNN_init zero_init) ''runs/cnn/m.pth'' False =
      (Inl ValueError, w)" for w :: "state_dict world"
    by (rule save_model_ValueError)
  then show ?thesis
    by (simp add: entry_def empty_world_def makedirs_calls_def)
qed

text \<open>
  C8, amended: two calls of \<open>save_model\<close> with the same path that contains a backslash and
  whose folder (the text before the last backslash) does not exist at first. If the first
  call returns without error, it has created the folder, by one call of \<^verbatim>\<open>os.makedirs\<close>,
  and the second call, whatever its model and its \<open>overwrite\<close>, returns without error and
  calls \<^verbatim>\<open>os.makedirs\<close> no more.
\<close>

theorem save_model_twice:
  assumes "rfind backslash path = Some i"
    and "entry w (take i path) = None"
    and "save_model ser w m path ov1 = (Inr (), w1)"
  shows "entry w1 (take i path) = Some Dir \<and>
         makedirs_calls w1 = makedirs_calls w @ [take i path] \<and>
         (\<exists>w2. save_model ser w1 m' path ov2 = (Inr (), w2) \<and>
               makedirs_calls w2 = makedirs_calls w1)"
  using assms by (rule save_model_two_calls)

lemma rfind_nested_path: "rfind backslash nested_path = Some 8"
  by (simp add: nested_path_def backslash_def)

lemma take_nested_path: "take 8 nested_path = ''runs'' @ [backslash] @ ''cnn''"
  by (simp add: nested_path_def)

lemma entry_empty_world: "entry (empty_world answers) p = None"
  by (simp add: entry_def empty_world_def)

lemma first_save_nested:
  "fst (save_model plain_ser (empty_world []) (RoCNN_init zero_init) nested_path False) = Inr ()"
  by (simp add: save_model_def rindex_def os_path_exists_eq Let_def os_makedirs_def
      ancestors_def is_sep_def log_event_def os_mkdir_def parent_ok_def entry_def py_print_def
      save_and_report_def torch_save_def can_open_for_writing_def can_create_def
      empty_world_def windows_separators_def refuses_nothing_def nested_path_def
      backslash_def slash_def nul_def)

theorem save_model_twice_witness:
  "rfind backslash nested_path = Some 8 \<and>
   entry (empty_world []) (take 8 nested_path) = None \<and>
   fst (save_model plain_ser (empty_world []) (RoCNN_init zero_init) nested_path False) = Inr () \<and>
   entry (snd (save_model plain_ser (empty_world []) (RoCNN_init zero_init) nested_path False))
     (take 8 nested_path) = Some Dir \<and>
   makedirs_calls
     (snd (save_model plain_ser (empty_world []) (RoCNN_init zero_init) nested_path False)) =
     [take 8 nested_path] \<and>
   (\<exists>w2. save_model plain_ser
           (snd (save_model plain_ser (empty_world []) (RoCNN_init zero_init) nested_path False))
           (RoCNN_init one_init) nested_path True = (Inr (), w2) \<and>
         makedirs_calls w2 = [take 8 nested_path])"
proof -
  obtain r w1 where sv:
    "save_model plain_ser (empty_world []) (RoCNN_init zero_init) nested_path False = (r, w1)"
    by (cases "save_model plain_ser (empty_world []) (RoCNN_init zero_init) nested_path False")
  with first_save_nested have sv1:
    "save_model plain_ser (empty_world []) (RoCNN_init zero_init) nested_path False = (Inr (), w1)"
    by simp
  have c0: "makedirs_calls (empty_world []) = []"
    by (simp add: makedirs_calls_def empty_world_def)
  show ?thesis
    using save_model_twice [OF rfind_nested_path entry_empty_world sv1, of "RoCNN_init one_init" True]
    by (auto simp: sv1 rfind_nested_path entry_empty_world c0)
qed

text \<open>
  The first call can raise after the check of the path: the folder \<^verbatim>\<open>runs\<close> is created
  and the file cannot be, because \<^verbatim>\<open>runs\x\<close> is not a directory; and a folder with a NUL
  in its name is not created.
\<close>

lemma first_save_mixed_separators:
  "fst (save_model plain_ser (empty_world []) (RoCNN_init zero_init)
          (''runs'' @ [backslash] @ ''x/m.pth'') False) = Inl OpenError"
  by (simp add: save_model_def rindex_def os_path_exists_eq Let_def os_makedirs_def
      ancestors_def is_sep_def log_event_def os_mkdir_def parent_ok_def entry_def py_print_def
      save_and_report_def torch_save_def can_open_for_writing_def can_create_def
      empty_world_def windows_separators_def refuses_nothing_def
      backslash_def slash_def nul_def)

lemma first_save_nul:
  "fst (save_model plain_ser (empty_world []) (RoCNN_init zero_init)
          (''ru'' @ [nul] @ ''ns'' @ [backslash] @ ''m.pth'') False) = Inl ValueError"
  by (simp add: save_model_def rindex_def os_path_exists_eq Let_def os_makedirs_def
      ancestors_def is_sep_def log_event_def os_mkdir_def parent_ok_def entry_def py_print_def
      save_and_report_def torch_save_def can_open_for_writing_def can_create_def
      empty_world_def windows_separators_def refuses_nothing_def
      backslash_def slash_def nul_def)

section \<open>Claims about load_model\<close>



text \<open>
  C6. For every checkpoint file whose contents deserialise to a state dictionary whose set
  of names is not the set of declared parameter names, \<open>load_model\<close> raises the error of
  \<^verbatim>\<open>load_state_dict\<close>, with a missing or an unexpected key reported; the result is an
  error, so no model, hydrated in part or not, reaches the caller.
\<close>

theorem load_model_mismatched_checkpoint:
  assumes "entry w path = Some (File b)" and "de b = Inr sd"
    and "set (map fst sd) \<noteq> set (map fst declared)"
  shows "\<exists>missing unexpected mismatched.
           load_model de init w path =
             (Inl (RuntimeError_state_dict missing unexpected mismatched),
              log_event (log_event w (Ev_exists path)) (Ev_load path)) \<and>
           (missing \<noteq> [] \<or> unexpected \<noteq> [])"
  using assms by (rule load_model_mismatch)

lemma partial_sd_keys: "set (map fst partial_sd) \<noteq> set (map fst declared)"
proof -
  have "''cv1.0.weight'' \<in> set (map fst declared)"
    by (simp add: declared_def)
  moreover have "''cv1.0.weight'' \<notin> set (map fst partial_sd)"
    by (simp add: partial_sd_def)
  ultimately show ?thesis by metis
qed

lemma entry_partial_world: "entry partial_world saved_path = Some (File (plain_ser partial_sd))"
  by (simp add: entry_def partial_world_def saved_path_def)

theorem load_model_mismatched_checkpoint_witness:
  "entry partial_world saved_path = Some (File (plain_ser partial_sd)) \<and>
   plain_de (plain_ser partial_sd) = Inr partial_sd \<and>
   set (map fst partial_sd) \<noteq> set (map fst declared) \<and>
   (\<exists>missing unexpected mismatched.
      load_model plain_de zero_init partial_world saved_path =
        (Inl (RuntimeError_state_dict missing unexpected mismatched),
         log_event (log_event partial_world (Ev_exists saved_path)) (Ev_load saved_path)) \<and>
      (missing \<noteq> [] \<or> unexpected \<noteq> []))"
proof -
  have d: "plain_de (plain_ser partial_sd) = Inr partial_sd"
    by (simp add: plain_de_def plain_ser_def)
  show ?thesis
    using load_model_mismatched_checkpoint
        [of partial_world saved_path "plain_ser partial_sd" plain_de partial_sd zero_init]
      entry_partial_world d partial_sd_keys
    by blast
qed

section \<open>Saving, then loading\<close>

text \<open>
  C1, as stated: for every model and every path, after \<open>save_model(model, path)\<close>
  succeeds, \<open>load_model(path)\<close> returns a model whose forward output is that of the model
  saved. It does not hold when a checkpoint is already at the path: \<open>overwrite\<close> is
  \<open>False\<close> by default, the call returns without error and without writing, and the model
  loaded is the one of the old checkpoint. Here the old checkpoint holds zeros, the model
  saved holds ones, and the forward outputs of the two differ.
\<close>

theorem stale_checkpoint_counterexample:
  "declared_shapes (RoCNN_init one_init) \<and>
   fst (save_model plain_ser saved_world (RoCNN_init one_init) saved_path False) = Inr () \<and>
   fst (load_model plain_de one_init
          (snd (save_model plain_ser saved_world (RoCNN_init one_init) saved_path False))
          saved_path) = Inr (RoCNN_init zero_init) \<and>
   forward bias_kernels (RoCNN_init zero_init) (zero_images 1) \<noteq>
   forward bias_kernels (RoCNN_init one_init) (zero_images 1)"
proof -
  let ?w1 = "log_event (log_event saved_world (Ev_exists (take 5 saved_path))) (Ev_exists saved_path)"
  have sv: "save_model plain_ser saved_world (RoCNN_init one_init) saved_path False = (Inr (), ?w1)"
    by (rule save_model_skips [OF rfind_saved_path]) (simp_all add: take_saved_path entry_saved_world)
  have fl: "entry ?w1 saved_path = Some (File (plain_ser (state_dict (RoCNN_init zero_init))))"
    by (simp add: log_event_simps entry_saved_world)
  have ld: "load_state_dict (RoCNN_init one_init) (state_dict (RoCNN_init zero_init)) =
      Inr (RoCNN_init zero_init)"
    using declared_shapes_init declared_shapes_init by (rule load_state_dict_own)
  have "fst (load_model plain_de one_init ?w1 saved_path) = Inr (RoCNN_init zero_init)"
    by (simp add: load_model_present [OF fl] plain_de_def plain_ser_def ld)
  moreover have "forward bias_kernels (RoCNN_init zero_init) (zero_images 1) \<noteq>
      forward bias_kernels (RoCNN_init one_init) (zero_images 1)"
    by (simp add: forward_bias_kernels zero_images_def fc3_bias_init zero_init_def one_init_def)
  ultimately show ?thesis
    by (simp add: sv declared_shapes_init)
qed

text \<open>
  C1, amended: for every model with the declared shapes and every path, if
  \<open>save_model\<close> returns without error and either \<open>overwrite\<close> was \<open>True\<close> or nothing was
  at the path before, then \<open>load_model\<close> on the same path returns, whatever the constructor
  draws, a model with the very parameters of the model saved, bit for bit; its forward output
  is the same for every backend and every input. The serialisation of torch is assumed to
  read back what it wrote.
\<close>

theorem save_load_roundtrip:
  assumes "declared_shapes m"
    and "\<forall>sd. de (ser sd) = Inr sd"
    and "save_model ser w m path ov = (Inr (), w1)"
    and "ov \<or> entry w path = None"
  shows "\<exists>m' w2. load_model de init w1 path = (Inr m', w2) \<and> m' = m \<and>
           (\<forall>K x. forward K m' x = forward K m x)"
  using load_after_save [OF assms] by blast

theorem save_load_roundtrip_witness:
  "declared_shapes (RoCNN_init one_init) \<and>
   (\<forall>sd. plain_de (plain_ser sd) = Inr sd) \<and>
   fst (save_model plain_ser saved_world (RoCNN_init one_init) saved_path True) = Inr () \<and>
   fst (load_model plain_de zero_init
          (snd (save_model plain_ser saved_world (RoCNN_init one_init) saved_path True))
          saved_path) = Inr (RoCNN_init one_init)"
proof -
  have cd: "\<forall>sd. plain_de (plain_ser sd) = Inr sd"
    by (simp add: plain_de_def plain_ser_def)
  have "Suc 5 < length saved_path"
    by (simp add: saved_path_def)
  moreover have "entry saved_world (take 5 saved_path) = Some Dir"
    by (simp add: take_saved_path entry_saved_world)
  ultimately obtain w1 where sv:
    "save_model plain_ser saved_world (RoCNN_init one_init) saved_path True = (Inr (), w1)"
    using save_model_replaces [OF rfind_saved_path _ _ entry_saved_world(2)] by blast
  show ?thesis
    using save_load_roundtrip [OF declared_shapes_init cd sv, of zero_init] cd
    by (auto simp: sv declared_shapes_init)
qed

section \<open>The forward pass on buffers refines the forward pass on values\<close>

lemma refinesI:
  assumes "\<And>st x. P x st \<Longrightarrow>
     (case f x of Inl e \<Rightarrow> h st = Inl e | Inr y \<Rightarrow> \<exists>st'. h st = Inr st' \<and> Q y st')"
  shows "refines P Q h f"
  using assms by (simp add: refines_def)

lemma refinesD_Inl:
  assumes "refines P Q h f" and "P x st" and "f x = Inl e"
  shows "h st = Inl e"
proof -
  from assms(1) assms(2) have
    "case f x of Inl e \<Rightarrow> h st = Inl e | Inr y \<Rightarrow> \<exists>st'. h st = Inr st' \<and> Q y st'"
    unfolding refines_def by blast
  then show ?thesis by (simp add: assms(3))
qed

lemma refinesD_Inr:
  assumes "refines P Q h f" and "P x st" and "f x = Inr y"
  shows "\<exists>st'. h st = Inr st' \<and> Q y st'"
proof -
  from assms(1) assms(2) have
    "case f x of Inl e \<Rightarrow> h st = Inl e | Inr y \<Rightarrow> \<exists>st'. h st = Inr st' \<and> Q y st'"
    unfolding refines_def by blast
  then show ?thesis by (simp add: assms(3))
qed

lemma refines_weaken:
  assumes "refines P Q h f" and "\<And>x st. Q x st \<Longrightarrow> Q' x st"
  shows "refines P Q' h f"
proof (rule refinesI)
  fix st x assume p: "P x st"
  show "case f x of Inl e \<Rightarrow> h st = Inl e | Inr y \<Rightarrow> \<exists>st'. h st = Inr st' \<and> Q' y st'"
  proof (cases "f x")
    case (Inl e)
    then show ?thesis using refinesD_Inl [OF assms(1) p] by simp
  next
    case (Inr y)
    then show ?thesis using refinesD_Inr [OF assms(1) p Inr] assms(2) by auto
  qed
qed

lemma refines_and_then:
  assumes "refines P Q h f" and "refines Q R gst g"
  shows "refines P R (\<lambda>st. and_then (h st) gst) (\<lambda>x. and_then (f x) g)"
proof (rule refinesI)
  fix st x assume p: "P x st"
  show "case and_then (f x) g of
          Inl e \<Rightarrow> and_then (h st) gst = Inl e
        | Inr y \<Rightarrow> \<exists>st'. and_then (h st) gst = Inr st' \<and> R y st'"
  proof (cases "f x")
    case (Inl e)
    then show ?thesis using refinesD_Inl [OF assms(1) p Inl] by (simp add: and_then_def)
  next
    case (Inr y)
    from refinesD_Inr [OF assms(1) p Inr] obtain st1 where 1: "h st = Inr st1" "Q y st1"
      by blast
    show ?thesis
    proof (cases "g y")
      case (Inl e)
      then show ?thesis
        using refinesD_Inl [OF assms(2) 1(2) Inl] Inr 1(1) by (simp add: and_then_def)
    next
      case (Inr z)
      then show ?thesis
        using refinesD_Inr [OF assms(2) 1(2) Inr] \<open>f x = Inr y\<close> 1(1) by (simp add: and_then_def)
    qed
  qed
qed

lemma refines_run_stages:
  assumes "list_all2 (refines P P) hs fs"
  shows "refines P P (run_stages hs) (run_stages fs)"
  using assms
proof (induction rule: list_all2_induct)
  case Nil
  show ?case by (simp add: refines_def)
next
  case (Cons h hs f fs)
  have "refines P P (\<lambda>st. and_then (h st) (run_stages hs)) (\<lambda>x. and_then (f x) (run_stages fs))"
    using Cons.hyps(1) Cons.IH by (rule refines_and_then)
  then show ?case by simp
qed

lemma simf_sim: "simf s0 x st \<Longrightarrow> sim s0 x st"
  by (simp add: simf_def)

lemma deref_prefix:
  assumes "take (length s0) s = s0" and "buf r < length s0"
  shows "deref s r = deref s0 r"
proof -
  have "s ! buf r = take (length s0) s ! buf r"
    using assms(2) by simp
  then show ?thesis using assms(1) by (simp add: deref_def)
qed

lemma sim_new_tensor:
  assumes "sim s0 x (s, r)"
  shows "simf s0 y (new_tensor s y)"
  using assms
  by (simp add: sim_def simf_def new_tensor_def deref_def)

lemma Conv2d_st_refines:
  assumes "buf wr < length s0" and "buf br < length s0"
  shows "refines (sim s0) (simf s0) (Conv2d_st K c wr br) (Conv2d K c (deref s0 wr) (deref s0 br))"
proof (rule refinesI)
  fix st x assume a: "sim s0 x st"
  obtain s r where st: "st = (s, r)" by (cases st)
  from a st have pre: "take (length s0) s = s0" and x: "deref s r = x"
    by (simp_all add: sim_def)
  have eq: "deref s wr = deref s0 wr" "deref s br = deref s0 br"
    using pre assms by (simp_all add: deref_prefix)
  show "case Conv2d K c (deref s0 wr) (deref s0 br) x of
          Inl e \<Rightarrow> Conv2d_st K c wr br st = Inl e
        | Inr y \<Rightarrow> \<exists>st'. Conv2d_st K c wr br st = Inr st' \<and> simf s0 y st'"
  proof (cases "Conv2d K c (deref s0 wr) (deref s0 br) x")
    case (Inl e)
    then show ?thesis using eq by (simp add: Conv2d_st_def st x)
  next
    case (Inr y)
    have "simf s0 y (new_tensor s y)" using a unfolding st by (rule sim_new_tensor)
    then show ?thesis using Inr eq by (simp add: Conv2d_st_def st x)
  qed
qed

lemma Linear_st_refines:
  assumes "buf wr < length s0" and "buf br < length s0"
  shows "refines (sim s0) (simf s0) (Linear_st K c wr br) (Linear K c (deref s0 wr) (deref s0 br))"
proof (rule refinesI)
  fix st x assume a: "sim s0 x st"
  obtain s r where st: "st = (s, r)" by (cases st)
  from a st have pre: "take (length s0) s = s0" and x: "deref s r = x"
    by (simp_all add: sim_def)
  have eq: "deref s wr = deref s0 wr" "deref s br = deref s0 br"
    using pre assms by (simp_all add: deref_prefix)
  show "case Linear K c (deref s0 wr) (deref s0 br) x of
          Inl e \<Rightarrow> Linear_st K c wr br st = Inl e
        | Inr y \<Rightarrow> \<exists>st'. Linear_st K c wr br st = Inr st' \<and> simf s0 y st'"
  proof (cases "Linear K c (deref s0 wr) (deref s0 br) x")
    case (Inl e)
    then show ?thesis using eq by (simp add: Linear_st_def st x)
  next
    case (Inr y)
    have "simf s0 y (new_tensor s y)" using a unfolding st by (rule sim_new_tensor)
    then show ?thesis using Inr eq by (simp add: Linear_st_def st x)
  qed
qed

lemma MaxPool2d_st_refines:
  "refines (sim s0) (simf s0) (MaxPool2d_st K c) (MaxPool2d K c)"
proof (rule refinesI)
  fix st x assume a: "sim s0 x st"
  obtain s r where st: "st = (s, r)" by (cases st)
  from a st have x: "deref s r = x"
    by (simp_all add: sim_def)
  show "case MaxPool2d K c x of
          Inl e \<Rightarrow> MaxPool2d_st K c st = Inl e
        | Inr y \<Rightarrow> \<exists>st'. MaxPool2d_st K c st = Inr st' \<and> simf s0 y st'"
  proof (cases "MaxPool2d K c x")
    case (Inl e)
    then show ?thesis by (simp add: MaxPool2d_st_def st x)
  next
    case (Inr y)
    have "simf s0 y (new_tensor s y)" using a unfolding st by (rule sim_new_tensor)
    then show ?thesis using Inr by (simp add: MaxPool2d_st_def st x)
  qed
qed

lemma ReLU_inplace_refines:
  "refines (simf s0) (simf s0) (ReLU_inplace K) (ReLU K)"
proof (rule refinesI)
  fix st x assume a: "simf s0 x st"
  obtain s r where st: "st = (s, r)" by (cases st)
  from a st have pre: "take (length s0) s = s0" and le: "length s0 \<le> length s"
    and v: "buf r < length s" and x: "deref s r = x" and fr: "length s0 \<le> buf r"
    by (simp_all add: sim_def simf_def)
  let ?s' = "s[buf r := relu_k K (s ! buf r)]"
  have "take (length s0) ?s' = s0"
    using pre fr by simp
  moreover have "deref ?s' r = x\<lparr>dat := relu_k K (dat x)\<rparr>"
    using v x by (auto simp: deref_def)
  ultimately have "simf s0 (x\<lparr>dat := relu_k K (dat x)\<rparr>) (?s', r)"
    using le v fr by (simp add: sim_def simf_def)
  then show "case ReLU K x of
          Inl e \<Rightarrow> ReLU_inplace K st = Inl e
        | Inr y \<Rightarrow> \<exists>st'. ReLU_inplace K st = Inr st' \<and> simf s0 y st'"
    by (simp add: ReLU_def ReLU_inplace_def st)
qed

lemma Flatten_view_refines:
  "refines (sim s0) (sim s0) Flatten_view Flatten"
proof (rule refinesI)
  fix st x assume a: "sim s0 x st"
  obtain s r where st: "st = (s, r)" by (cases st)
  from a st have pre: "take (length s0) s = s0" and le: "length s0 \<le> length s"
    and v: "buf r < length s" and x: "deref s r = x"
    by (simp_all add: sim_def)
  have d: "Flatten x = Inr y \<Longrightarrow> dat y = dat x" for y
    by (auto simp: Flatten_def split: list.splits)
  have "Flatten x = Inr y \<Longrightarrow> sim s0 y (s, \<lparr>tshape = shape y, buf = buf r\<rparr>)" for y
    using pre le v x d [of y] by (auto simp: sim_def deref_def)
  then show "case Flatten x of
          Inl e \<Rightarrow> Flatten_view st = Inl e
        | Inr y \<Rightarrow> \<exists>st'. Flatten_view st = Inr st' \<and> sim s0 y st'"
    by (cases "Flatten x") (simp_all add: Flatten_view_def st x)
qed

lemma conv_stage_refines:
  assumes "buf wr < length s0" and "buf br < length s0"
  shows "refines (sim s0) (sim s0)
           (\<lambda>st. and_then (Conv2d_st K c wr br st) (ReLU_inplace K))
           (\<lambda>x. and_then (Conv2d K c (deref s0 wr) (deref s0 br) x) (ReLU K))"
  using refines_and_then [OF Conv2d_st_refines [OF assms] ReLU_inplace_refines] simf_sim
  by (rule refines_weaken)

lemma linear_stage_refines:
  assumes "buf wr < length s0" and "buf br < length s0"
  shows "refines (sim s0) (sim s0)
           (\<lambda>st. and_then (Linear_st K c wr br st) (ReLU_inplace K))
           (\<lambda>x. and_then (Linear K c (deref s0 wr) (deref s0 br) x) (ReLU K))"
  using refines_and_then [OF Linear_st_refines [OF assms] ReLU_inplace_refines] simf_sim
  by (rule refines_weaken)

lemma stage_fun_eqs:
  "cv1_st K mr = (\<lambda>st. and_then (Conv2d_st K cv1_cfg (cv1_weight mr) (cv1_bias mr) st) (ReLU_inplace K))"
  "cv2_st K mr = (\<lambda>st. and_then (Conv2d_st K cv2_cfg (cv2_weight mr) (cv2_bias mr) st) (ReLU_inplace K))"
  "cv3_st K mr = (\<lambda>st. and_then (Conv2d_st K cv3_cfg (cv3_weight mr) (cv3_bias mr) st) (ReLU_inplace K))"
  "fc1_st K mr = (\<lambda>st. and_then (Linear_st K fc1_cfg (fc1_weight mr) (fc1_bias mr) st) (ReLU_inplace K))"
  "fc2_st K mr = (\<lambda>st. and_then (Linear_st K fc2_cfg (fc2_weight mr) (fc2_bias mr) st) (ReLU_inplace K))"
  "fc3_st K mr = Linear_st K fc3_cfg (fc3_weight mr) (fc3_bias mr)"
  "mp1_st K = MaxPool2d_st K mp1_cfg"
  "mp2_st K = MaxPool2d_st K mp2_cfg"
  "cv1 K m = (\<lambda>x. and_then (Conv2d K cv1_cfg (cv1_weight m) (cv1_bias m) x) (ReLU K))"
  "cv2 K m = (\<lambda>x. and_then (Conv2d K cv2_cfg (cv2_weight m) (cv2_bias m) x) (ReLU K))"
  "cv3 K m = (\<lambda>x. and_then (Conv2d K cv3_cfg (cv3_weight m) (cv3_bias m) x) (ReLU K))"
  "fc1 K m = (\<lambda>x. and_then (Linear K fc1_cfg (fc1_weight m) (fc1_bias m) x) (ReLU K))"
  "fc2 K m = (\<lambda>x. and_then (Linear K fc2_cfg (fc2_weight m) (fc2_bias m) x) (ReLU K))"
  "fc3 K m = Linear K fc3_cfg (fc3_weight m) (fc3_bias m)"
  "mp1 K = MaxPool2d K mp1_cfg"
  "mp2 K = MaxPool2d K mp2_cfg"
  by (rule ext, simp add: cv1_st_def cv2_st_def cv3_st_def fc1_st_def fc2_st_def fc3_st_def
      mp1_st_def mp2_st_def cv1_def cv2_def cv3_def fc1_def fc2_def fc3_def mp1_def mp2_def)+

lemma stages_refine:
  assumes "list_all (\<lambda>r. buf r < length s0) (param_refs mr)"
  shows "list_all2 (refines (sim s0) (sim s0)) (stages_st K mr) (stages K (deref_model s0 mr))"
proof -
  from assms have v:
    "buf (cv1_weight mr) < length s0" "buf (cv1_bias mr) < length s0"
    "buf (cv2_weight mr) < length s0" "buf (cv2_bias mr) < length s0"
    "buf (cv3_weight mr) < length s0" "buf (cv3_bias mr) < length s0"
    "buf (fc1_weight mr) < length s0" "buf (fc1_bias mr) < length s0"
    "buf (fc2_weight mr) < length s0" "buf (fc2_bias mr) < length s0"
    "buf (fc3_weight mr) < length s0" "buf (fc3_bias mr) < length s0"
    by (simp_all add: param_refs_def)
  have mp: "refines (sim s0) (sim s0) (MaxPool2d_st K c) (MaxPool2d K c)" for c
    using MaxPool2d_st_refines simf_sim by (rule refines_weaken)
  have fc: "refines (sim s0) (sim s0) (Linear_st K fc3_cfg (fc3_weight mr) (fc3_bias mr))
      (Linear K fc3_cfg (deref s0 (fc3_weight mr)) (deref s0 (fc3_bias mr)))"
    using Linear_st_refines [OF v(11) v(12)] simf_sim by (rule refines_weaken)
  show ?thesis
    unfolding stages_st_def stages_def stage_fun_eqs
    by (simp add: deref_model_def conv_stage_refines linear_stage_refines v mp fc
        Flatten_view_refines)
qed

lemma forward_st_refines:
  assumes "list_all (\<lambda>r. buf r < length s0) (param_refs mr)"
  shows "refines (sim s0) (sim s0) (forward_st K mr) (forward K (deref_model s0 mr))"
proof -
  have "forward_st K mr = run_stages (stages_st K mr)"
    "forward K (deref_model s0 mr) = run_stages (stages K (deref_model s0 mr))"
    by (rule ext, simp add: forward_st_def forward_def)+
  then show ?thesis
    using refines_run_stages [OF stages_refine [OF assms] ] by simp
qed

lemma sim_initial: "buf x < length s \<Longrightarrow> sim s (deref s x) (s, x)"
  by (simp add: sim_def)

lemma forward_st_pure:
  assumes "valid_refs s mr x"
  shows "case forward K (deref_model s mr) (deref s x) of
           Inl e \<Rightarrow> forward_st K mr (s, x) = Inl e
         | Inr y \<Rightarrow>
             \<exists>s1 y1. forward_st K mr (s, x) = Inr (s1, y1) \<and> deref s1 y1 = y \<and>
               take (length s) s1 = s \<and>
               (\<exists>s2 y2. forward_st K mr (s1, x) = Inr (s2, y2) \<and> deref s2 y2 = y \<and>
                  take (length s1) s2 = s1)"
proof (cases "forward K (deref_model s mr) (deref s x)")
  case (Inl e)
  from assms have v: "buf x < length s" "list_all (\<lambda>r. buf r < length s) (param_refs mr)"
    by (simp_all add: valid_refs_def)
  show ?thesis
    using refinesD_Inl [OF forward_st_refines [OF v(2)] sim_initial [OF v(1)] Inl] Inl by simp
next
  case (Inr y)
  from assms have v: "buf x < length s" "list_all (\<lambda>r. buf r < length s) (param_refs mr)"
    by (simp_all add: valid_refs_def)
  from refinesD_Inr [OF forward_st_refines [OF v(2)] sim_initial [OF v(1)] Inr]
  obtain s1 y1 where 1: "forward_st K mr (s, x) = Inr (s1, y1)" "sim s y (s1, y1)"
    by auto
  then have p1: "take (length s) s1 = s" "length s \<le> length s1" "deref s1 y1 = y"
    by (simp_all add: sim_def)
  have v1: "buf x < length s1" "list_all (\<lambda>r. buf r < length s1) (param_refs mr)"
    using v p1(2) by (auto simp: list_all_iff)
  have m1: "deref_model s1 mr = deref_model s mr"
    using v(2) p1(1) by (simp add: deref_model_def param_refs_def deref_prefix)
  have x1: "deref s1 x = deref s x"
    using p1(1) v(1) by (rule deref_prefix)
  have Inr1: "forward K (deref_model s1 mr) (deref s1 x) = Inr y"
    using Inr by (simp add: m1 x1)
  from refinesD_Inr [OF forward_st_refines [OF v1(2)] sim_initial [OF v1(1)] Inr1]
  obtain s2 y2 where 2: "forward_st K mr (s1, x) = Inr (s2, y2)" "sim s1 y (s2, y2)"
    by auto
  then have p2: "take (length s1) s2 = s1" "deref s2 y2 = y"
    by (simp_all add: sim_def)
  show ?thesis
    using Inr 1(1) p1 2(1) p2 by simp
qed

text \<open>
  C9. \<open>forward\<close> is a pure function of the parameters and the input. Run on buffers, with
  the in-place ReLUs and the view of \<^verbatim>\<open>Flatten\<close> as the source has them, a forward pass
  raises exactly when the function \<open>forward\<close> of the values of the parameters and of the
  input raises, and otherwise returns a tensor whose value is the value of that function;
  every buffer that existed before the call (those of the parameters and of the input among
  them) holds the same elements after it; and a second call with the same references
  returns the same value again.
\<close>

theorem forward_pure:
  assumes "valid_refs s mr x"
  shows "case forward K (deref_model s mr) (deref s x) of
           Inl e \<Rightarrow> forward_st K mr (s, x) = Inl e
         | Inr y \<Rightarrow>
             \<exists>s1 y1. forward_st K mr (s, x) = Inr (s1, y1) \<and> deref s1 y1 = y \<and>
               take (length s) s1 = s \<and>
               (\<exists>s2 y2. forward_st K mr (s1, x) = Inr (s2, y2) \<and> deref s2 y2 = y \<and>
                  take (length s1) s2 = s1)"
  using assms by (rule forward_st_pure)

lemma length_zero_store: "length zero_store = 13"
  by (simp add: zero_store_def declared_def)

lemma valid_zero_refs: "valid_refs zero_store zero_refs zero_input"
  by (simp add: valid_refs_def length_zero_store param_refs_def zero_refs_def zero_input_def)

lemma forward_zero_refs:
  "forward bias_kernels (deref_model zero_store zero_refs) (deref zero_store zero_input) =
     Inr \<lparr>shape = [1, 1], dat = [0]\<rparr>"
proof -
  have "shape (deref zero_store zero_input) = [1, 6, 64, 64]"
    by (simp add: deref_def zero_input_def)
  moreover have "dat (fc3_bias (deref_model zero_store zero_refs)) = [0]"
    by (simp add: deref_model_def deref_def zero_refs_def zero_store_def declared_def
        linear_bias_shape_def fc3_cfg_def)
  ultimately show ?thesis
    by (simp add: forward_bias_kernels)
qed

theorem forward_pure_witness:
  "valid_refs zero_store zero_refs zero_input \<and>
   (\<exists>s1 y1. forward_st bias_kernels zero_refs (zero_store, zero_input) = Inr (s1, y1) \<and>
      deref s1 y1 = \<lparr>shape = [1, 1], dat = [0]\<rparr> \<and>
      take (length zero_store) s1 = zero_store \<and>
      (\<exists>s2 y2. forward_st bias_kernels zero_refs (s1, zero_input) = Inr (s2, y2) \<and>
         deref s2 y2 = \<lparr>shape = [1, 1], dat = [0]\<rparr> \<and> take (length s1) s2 = s1))"
  using forward_pure [OF valid_zero_refs, of bias_kernels] valid_zero_refs
  by (simp add: forward_zero_refs)

end
